theory Spec2Isabelle
  imports Main "HOL-Library.AList" "HOL-Library.Char_ord" "HOL-Library.List_Lexorder"
begin

section \<open>Results of calls that may panic\<close>

text \<open>
  A Go call either returns or panics. A panic is the left injection of the result;
  \<open>andThen\<close> runs the rest of a function body after a call that returned.
\<close>

datatype panic = NilPointerDereference | ResourceInsufficient | EmptyQueue

definition andThen :: "panic + 'a \<Rightarrow> ('a \<Rightarrow> panic + 'b) \<Rightarrow> panic + 'b" where
  "andThen m f = (case m of Inl p \<Rightarrow> Inl p | Inr x \<Rightarrow> f x)"

section \<open>Resource vectors\<close>

text \<open>
  Modelled from the spec: the Resource type and its methods are not part of the sources at
  hand. The spec describes a fixed-arity additive vector over cpu, memory and scalar
  extensions (one extension, the GPU share, is kept here), with \<open>Add\<close>, \<open>Sub\<close>,
  \<open>LessEqual\<close> componentwise. Subtracting more than is available is a programming
  error: the call does not return.
\<close>

record Resource =
  MilliCPU :: int
  Memory :: int
  MilliGPU :: int

definition EmptyResource :: Resource where
  "EmptyResource = \<lparr>MilliCPU = 0, Memory = 0, MilliGPU = 0\<rparr>"

definition Add :: "Resource \<Rightarrow> Resource \<Rightarrow> Resource" where
  "Add r rr = \<lparr>MilliCPU = MilliCPU r + MilliCPU rr, Memory = Memory r + Memory rr,
               MilliGPU = MilliGPU r + MilliGPU rr\<rparr>"

definition LessEqual :: "Resource \<Rightarrow> Resource \<Rightarrow> bool" where
  "LessEqual r rr \<longleftrightarrow>
     MilliCPU r \<le> MilliCPU rr \<and> Memory r \<le> Memory rr \<and> MilliGPU r \<le> MilliGPU rr"

definition Sub :: "Resource \<Rightarrow> Resource \<Rightarrow> panic + Resource" where
  "Sub r rr =
     (if LessEqual rr r
      then Inr \<lparr>MilliCPU = MilliCPU r - MilliCPU rr, Memory = Memory r - Memory rr,
                MilliGPU = MilliGPU r - MilliGPU rr\<rparr>
      else Inl ResourceInsufficient)"

text \<open>
  Modelled from the spec: \<open>NewResource\<close> turns the resource list of a cluster node into
  a Resource. The list is kept as the vector it denotes.
\<close>

type_synonym ResourceList = Resource

definition NewResource :: "ResourceList \<Rightarrow> Resource" where
  "NewResource rl = rl"

section \<open>Tasks\<close>

text \<open>
  Modelled from the spec: TaskInfo, its status enumeration and \<open>PodKey\<close> are declared
  outside the sources at hand. \<open>PodKey\<close> derives the TaskID from the referenced cluster
  object.
\<close>

datatype TaskStatus =
  Pending | Allocated | Pipelined | Binding | Bound | Running | Releasing
  | Succeeded | Failed | Unknown

type_synonym TaskID = string
type_synonym JobID = string

record Pod =
  pod_Namespace :: string
  pod_Name :: string

definition PodKey :: "Pod \<Rightarrow> TaskID" where
  "PodKey p = pod_Namespace p @ ''/'' @ pod_Name p"

record TaskInfo =
  ti_UID :: TaskID
  ti_Job :: JobID
  ti_Name :: string
  ti_Namespace :: string
  ti_NodeName :: string
  ti_Resreq :: Resource
  ti_Status :: TaskStatus
  ti_Pod :: Pod

text \<open>
  Tasks, jobs and nodes are shared through pointers: the same TaskInfo is reachable from
  its job, from a status bucket and from a node. A pointer is an address into a store of
  objects; following a pointer that holds no object is the nil dereference.
\<close>

type_synonym ref = nat

definition deref :: "(ref \<rightharpoonup> 'a) \<Rightarrow> ref \<Rightarrow> panic + 'a" where
  "deref h r = (case h r of None \<Rightarrow> Inl NilPointerDereference | Some x \<Rightarrow> Inr x)"

section \<open>Nodes (pkg/scheduler/api/node_info.go)\<close>

text \<open>The part of the cluster's node object that NodeInfo reads.\<close>

record Node =
  node_Name :: string
  node_Allocatable :: ResourceList
  node_Capacity :: ResourceList

text \<open>
  The \<open>Tasks\<close> map is kept as an association list with map semantics
  (\<open>map_of\<close>, \<open>AList.update\<close>, \<open>AList.delete\<close>); a range loop visits it in
  list order.
\<close>

record NodeInfo =
  ni_Name :: string
  ni_Node :: "Node option"
  ni_Releasing :: Resource
  ni_Idle :: Resource
  ni_Used :: Resource
  ni_Allocatable :: Resource
  ni_Capability :: Resource
  ni_Tasks :: "(TaskID \<times> ref) list"

definition NewNodeInfo :: "Node option \<Rightarrow> NodeInfo" where
  "NewNodeInfo node =
     (case node of
        None \<Rightarrow>
          \<lparr>ni_Name = [], ni_Node = None,
           ni_Releasing = EmptyResource, ni_Idle = EmptyResource, ni_Used = EmptyResource,
           ni_Allocatable = EmptyResource, ni_Capability = EmptyResource, ni_Tasks = []\<rparr>
      | Some n \<Rightarrow>
          \<lparr>ni_Name = node_Name n, ni_Node = Some n,
           ni_Releasing = EmptyResource, ni_Idle = NewResource (node_Allocatable n),
           ni_Used = EmptyResource,
           ni_Allocatable = NewResource (node_Allocatable n),
           ni_Capability = NewResource (node_Capacity n), ni_Tasks = []\<rparr>)"

text \<open>The loop body of \<open>SetNode\<close>, for one held task.\<close>

definition replayTask :: "(ref \<rightharpoonup> TaskInfo) \<Rightarrow> NodeInfo \<Rightarrow> ref \<Rightarrow> panic + NodeInfo" where
  "replayTask th ni tref =
     andThen (deref th tref) (\<lambda>task.
       let rel = (if ti_Status task = Releasing
                  then Add (ni_Releasing ni) (ti_Resreq task) else ni_Releasing ni)
       in andThen (Sub (ni_Idle ni) (ti_Resreq task)) (\<lambda>idle.
            Inr (ni\<lparr>ni_Releasing := rel, ni_Idle := idle,
                     ni_Used := Add (ni_Used ni) (ti_Resreq task)\<rparr>)))"

fun replayTasks :: "(ref \<rightharpoonup> TaskInfo) \<Rightarrow> NodeInfo \<Rightarrow> (TaskID \<times> ref) list \<Rightarrow> panic + NodeInfo" where
  "replayTasks th ni [] = Inr ni"
| "replayTasks th ni (kv # kvs) =
     andThen (replayTask th ni (snd kv)) (\<lambda>ni'. replayTasks th ni' kvs)"

definition SetNode :: "(ref \<rightharpoonup> TaskInfo) \<Rightarrow> NodeInfo \<Rightarrow> Node option \<Rightarrow> panic + NodeInfo" where
  "SetNode th ni node =
     (case node of
        None \<Rightarrow> Inl NilPointerDereference
      | Some n \<Rightarrow>
          andThen
            (if ni_Node ni = None
             then replayTasks th (ni\<lparr>ni_Idle := NewResource (node_Allocatable n)\<rparr>) (ni_Tasks ni)
             else Inr ni)
            (\<lambda>ni'. Inr (ni'\<lparr>ni_Name := node_Name n, ni_Node := Some n,
                            ni_Allocatable := NewResource (node_Allocatable n),
                            ni_Capability := NewResource (node_Capacity n)\<rparr>)))"

definition PipelineTask :: "(ref \<rightharpoonup> TaskInfo) \<Rightarrow> NodeInfo \<Rightarrow> ref \<Rightarrow> panic + NodeInfo" where
  "PipelineTask th ni tref =
     andThen (deref th tref) (\<lambda>task.
       let key = PodKey (ti_Pod task) in
       if map_of (ni_Tasks ni) key \<noteq> None then Inr ni
       else
         andThen
           (if ni_Node ni \<noteq> None
            then andThen (Sub (ni_Releasing ni) (ti_Resreq task)) (\<lambda>rel.
                   Inr (ni\<lparr>ni_Releasing := rel,
                            ni_Used := Add (ni_Used ni) (ti_Resreq task)\<rparr>))
            else Inr ni)
           (\<lambda>ni'. Inr (ni'\<lparr>ni_Tasks := AList.update key tref (ni_Tasks ni')\<rparr>)))"

definition AddTask :: "(ref \<rightharpoonup> TaskInfo) \<Rightarrow> NodeInfo \<Rightarrow> ref \<Rightarrow> panic + NodeInfo" where
  "AddTask th ni tref =
     andThen (deref th tref) (\<lambda>task.
       let key = PodKey (ti_Pod task) in
       if map_of (ni_Tasks ni) key \<noteq> None then Inr ni
       else
         andThen
           (if ni_Node ni \<noteq> None
            then
              (let rel = (if ti_Status task = Releasing
                          then Add (ni_Releasing ni) (ti_Resreq task) else ni_Releasing ni)
               in andThen (Sub (ni_Idle ni) (ti_Resreq task)) (\<lambda>idle.
                    Inr (ni\<lparr>ni_Releasing := rel, ni_Idle := idle,
                             ni_Used := Add (ni_Used ni) (ti_Resreq task)\<rparr>)))
            else Inr ni)
           (\<lambda>ni'. Inr (ni'\<lparr>ni_Tasks := AList.update key tref (ni_Tasks ni')\<rparr>)))"

definition RemoveTask :: "(ref \<rightharpoonup> TaskInfo) \<Rightarrow> NodeInfo \<Rightarrow> ref \<Rightarrow> panic + NodeInfo" where
  "RemoveTask th ni tiref =
     andThen (deref th tiref) (\<lambda>ti.
       let key = PodKey (ti_Pod ti) in
       case map_of (ni_Tasks ni) key of
         None \<Rightarrow> Inr ni
       | Some tref \<Rightarrow>
           andThen
             (if ni_Node ni \<noteq> None
              then
                andThen (deref th tref) (\<lambda>task.
                  andThen (if ti_Status task = Releasing
                           then Sub (ni_Releasing ni) (ti_Resreq task)
                           else Inr (ni_Releasing ni)) (\<lambda>rel.
                    andThen (Sub (ni_Used ni) (ti_Resreq task)) (\<lambda>used.
                      Inr (ni\<lparr>ni_Releasing := rel,
                               ni_Idle := Add (ni_Idle ni) (ti_Resreq task),
                               ni_Used := used\<rparr>))))
              else Inr ni)
             (\<lambda>ni'. Inr (ni'\<lparr>ni_Tasks := AList.delete key (ni_Tasks ni')\<rparr>)))"

section \<open>Jobs\<close>

text \<open>
  Modelled from the spec: JobInfo is declared outside the sources at hand. A job maps
  TaskIDs to its tasks and keeps, per status, the bucket of its tasks in that status.
  The two maps are association lists with map semantics, visited in list order.
\<close>

record JobInfo =
  ji_UID :: JobID
  ji_Name :: string
  ji_Namespace :: string
  ji_Queue :: string
  ji_Priority :: int
  ji_MinAvailable :: int
  ji_Tasks :: "(TaskID \<times> ref) list"
  ji_TaskStatusIndex :: "TaskStatus \<Rightarrow> (TaskID \<times> ref) list"

section \<open>The store, the cache and the callbacks\<close>

text \<open>
  The objects a session points to, together with what leaves the session: the calls made
  to the cache's \<open>Bind\<close> and \<open>Evict\<close> and the callbacks made to event handlers, each
  in the order made.
\<close>

type_synonym error = string

record Event =
  ev_Task :: ref

type_synonym EventFn = string

record World =
  w_tasks :: "ref \<rightharpoonup> TaskInfo"
  w_jobs :: "ref \<rightharpoonup> JobInfo"
  w_nodes :: "ref \<rightharpoonup> NodeInfo"
  w_binds :: "(ref \<times> string) list"
  w_evicts :: "ref list"
  w_events :: "(EventFn \<times> Event) list"

text \<open>
  Modelled from the spec: the cache is an external collaborator. \<open>Bind\<close> and
  \<open>Evict\<close> return an error or nil; the answer may depend on the calls made before.
\<close>

record Cache =
  cache_Bind :: "(ref \<times> string) list \<Rightarrow> TaskInfo \<Rightarrow> string \<Rightarrow> error option"
  cache_Evict :: "ref list \<Rightarrow> TaskInfo \<Rightarrow> error option"

text \<open>
  An event handler holds two optional callbacks. A callback is an opaque function of a
  plugin; calling it is recorded in \<open>w_events\<close> under the function's name.
\<close>

record EventHandler =
  eh_AllocateFunc :: "EventFn option"
  eh_EvictFunc :: "EventFn option"

text \<open>
  Modelled from the spec: \<open>UpdateTaskStatus\<close> is a method of JobInfo, outside the
  sources at hand. For a task that is not in \<open>Tasks\<close> the call is logged and does
  nothing; otherwise the task leaves the bucket of its old status, gets the new status
  and enters the bucket of the new status, as the same object. \<open>moveTask\<close> is the
  status index after the move.
\<close>

definition moveTask :: "(TaskStatus \<Rightarrow> (TaskID \<times> ref) list) \<Rightarrow> TaskID \<Rightarrow> ref \<Rightarrow> TaskStatus
    \<Rightarrow> TaskStatus \<Rightarrow> (TaskStatus \<Rightarrow> (TaskID \<times> ref) list)" where
  "moveTask idx key tref old new =
     (let idx1 = idx(old := AList.delete key (idx old))
      in idx1(new := AList.update key tref (idx1 new)))"

definition UpdateTaskStatus :: "World \<Rightarrow> ref \<Rightarrow> ref \<Rightarrow> TaskStatus \<Rightarrow> panic + World" where
  "UpdateTaskStatus w jref tref status =
     andThen (deref (w_jobs w) jref) (\<lambda>job.
       andThen (deref (w_tasks w) tref) (\<lambda>task.
         let key = PodKey (ti_Pod task) in
         if map_of (ji_Tasks job) key = None then Inr w
         else
           Inr (w\<lparr>w_tasks := (w_tasks w)(tref \<mapsto> task\<lparr>ti_Status := status\<rparr>),
                   w_jobs := (w_jobs w)(jref \<mapsto> job\<lparr>ji_TaskStatusIndex :=
                     moveTask (ji_TaskStatusIndex job) key tref (ti_Status task) status\<rparr>)\<rparr>)))"

section \<open>Session (pkg/scheduler/framework)\<close>

text \<open>
  A nil slice is the empty list and a nil map the empty map. The policy functions are
  functions of the objects they are called with; \<open>JobReady\<close> may be called with a nil
  job.
\<close>

type_synonym Plugin = string

record Session =
  ssn_ID :: string
  ssn_cache :: Cache
  ssn_Jobs :: "ref list"
  ssn_JobIndex :: "JobID \<rightharpoonup> ref"
  ssn_Nodes :: "ref list"
  ssn_NodeIndex :: "string \<rightharpoonup> ref"
  ssn_Backlog :: "ref list"
  ssn_plugins :: "Plugin list"
  ssn_eventHandlers :: "EventHandler list"
  ssn_jobOrderFns :: "(JobInfo \<Rightarrow> JobInfo \<Rightarrow> int) list"
  ssn_taskOrderFns :: "(TaskInfo \<Rightarrow> TaskInfo \<Rightarrow> int) list"
  ssn_preemptableFns :: "(TaskInfo \<Rightarrow> TaskInfo \<Rightarrow> bool) list"
  ssn_jobReadyFns :: "(JobInfo option \<Rightarrow> bool) list"

definition closeSession :: "Session \<Rightarrow> Session" where
  "closeSession ssn =
     ssn\<lparr>ssn_Jobs := [], ssn_JobIndex := Map.empty, ssn_Nodes := [],
         ssn_NodeIndex := Map.empty, ssn_Backlog := [], ssn_plugins := [],
         ssn_eventHandlers := [], ssn_jobOrderFns := []\<rparr>"

text \<open>The loop over the event handlers that \<open>Pipeline\<close> and \<open>Allocate\<close> share.\<close>

fun fireAllocate :: "EventHandler list \<Rightarrow> ref \<Rightarrow> World \<Rightarrow> World" where
  "fireAllocate [] tref w = w"
| "fireAllocate (eh # ehs) tref w =
     fireAllocate ehs tref
       (case eh_AllocateFunc eh of
          None \<Rightarrow> w
        | Some f \<Rightarrow> w\<lparr>w_events := w_events w @ [(f, \<lparr>ev_Task = tref\<rparr>)]\<rparr>)"

definition setNodeName :: "World \<Rightarrow> ref \<Rightarrow> string \<Rightarrow> panic + World" where
  "setNodeName w tref hostname =
     andThen (deref (w_tasks w) tref) (\<lambda>task.
       Inr (w\<lparr>w_tasks := (w_tasks w)(tref \<mapsto> task\<lparr>ti_NodeName := hostname\<rparr>)\<rparr>))"

definition Pipeline :: "Session \<Rightarrow> World \<Rightarrow> ref \<Rightarrow> string \<Rightarrow> panic + (error option \<times> World)" where
  "Pipeline ssn w tref hostname =
     andThen (deref (w_tasks w) tref) (\<lambda>task.
       andThen (case ssn_JobIndex ssn (ti_Job task) of
                  Some jref \<Rightarrow> UpdateTaskStatus w jref tref Pipelined
                | None \<Rightarrow> Inr w) (\<lambda>w1.
         andThen (setNodeName w1 tref hostname) (\<lambda>w2.
           andThen (case ssn_NodeIndex ssn hostname of
                      Some nref \<Rightarrow>
                        andThen (deref (w_nodes w2) nref) (\<lambda>ni.
                          andThen (PipelineTask (w_tasks w2) ni tref) (\<lambda>ni'.
                            Inr (w2\<lparr>w_nodes := (w_nodes w2)(nref \<mapsto> ni')\<rparr>)))
                    | None \<Rightarrow> Inr w2) (\<lambda>w3.
             Inr (None, fireAllocate (ssn_eventHandlers ssn) tref w3)))))"

definition dispatch :: "Session \<Rightarrow> World \<Rightarrow> ref \<Rightarrow> panic + (error option \<times> World)" where
  "dispatch ssn w tref =
     andThen (deref (w_tasks w) tref) (\<lambda>task.
       let err = cache_Bind (ssn_cache ssn) (w_binds w) task (ti_NodeName task);
           w1 = w\<lparr>w_binds := w_binds w @ [(tref, ti_NodeName task)]\<rparr>
       in case err of
            Some e \<Rightarrow> Inr (Some e, w1)
          | None \<Rightarrow>
              andThen (case ssn_JobIndex ssn (ti_Job task) of
                         Some jref \<Rightarrow> UpdateTaskStatus w1 jref tref Binding
                       | None \<Rightarrow> Inr w1) (\<lambda>w2. Inr (None, w2)))"

definition AddEventHandler :: "Session \<Rightarrow> EventHandler \<Rightarrow> Session" where
  "AddEventHandler ssn eh = ssn\<lparr>ssn_eventHandlers := ssn_eventHandlers ssn @ [eh]\<rparr>"

definition AddJobOrderFn :: "Session \<Rightarrow> (JobInfo \<Rightarrow> JobInfo \<Rightarrow> int) \<Rightarrow> Session" where
  "AddJobOrderFn ssn cf = ssn\<lparr>ssn_jobOrderFns := ssn_jobOrderFns ssn @ [cf]\<rparr>"

definition AddTaskOrderFn :: "Session \<Rightarrow> (TaskInfo \<Rightarrow> TaskInfo \<Rightarrow> int) \<Rightarrow> Session" where
  "AddTaskOrderFn ssn cf = ssn\<lparr>ssn_taskOrderFns := ssn_taskOrderFns ssn @ [cf]\<rparr>"

definition AddPreemptableFn :: "Session \<Rightarrow> (TaskInfo \<Rightarrow> TaskInfo \<Rightarrow> bool) \<Rightarrow> Session" where
  "AddPreemptableFn ssn cf = ssn\<lparr>ssn_preemptableFns := ssn_preemptableFns ssn @ [cf]\<rparr>"

definition AddJobReadyFn :: "Session \<Rightarrow> (JobInfo option \<Rightarrow> bool) \<Rightarrow> Session" where
  "AddJobReadyFn ssn vf = ssn\<lparr>ssn_jobReadyFns := ssn_jobReadyFns ssn @ [vf]\<rparr>"

fun JobReady_loop :: "(JobInfo option \<Rightarrow> bool) list \<Rightarrow> JobInfo option \<Rightarrow> bool" where
  "JobReady_loop [] obj = True"
| "JobReady_loop (jrf # jrfs) obj = (if \<not> jrf obj then False else JobReady_loop jrfs obj)"

definition JobReady :: "Session \<Rightarrow> JobInfo option \<Rightarrow> bool" where
  "JobReady ssn obj = JobReady_loop (ssn_jobReadyFns ssn) obj"

text \<open>
  The range loop of \<open>Allocate\<close> over the job's Allocated bucket. The keys are those of
  the bucket when the loop starts; an entry removed before the loop reaches it is not
  produced. The error that \<open>dispatch\<close> returns is dropped.
\<close>

fun dispatchAllocated :: "Session \<Rightarrow> World \<Rightarrow> ref \<Rightarrow> TaskID list \<Rightarrow> panic + World" where
  "dispatchAllocated ssn w jref [] = Inr w"
| "dispatchAllocated ssn w jref (k # ks) =
     andThen (deref (w_jobs w) jref) (\<lambda>job.
       case map_of (ji_TaskStatusIndex job Allocated) k of
         None \<Rightarrow> dispatchAllocated ssn w jref ks
       | Some tref \<Rightarrow>
           andThen (dispatch ssn w tref) (\<lambda>r. dispatchAllocated ssn (snd r) jref ks))"

text \<open>
  \<open>Allocate\<close> up to its callbacks: the status update in the job, the node name, the
  node's accounting and the event handlers. \<open>job\<close> is the result of the index lookup.
\<close>

definition recordAllocation :: "Session \<Rightarrow> World \<Rightarrow> ref \<Rightarrow> string \<Rightarrow> ref option \<Rightarrow> panic + World" where
  "recordAllocation ssn w tref hostname job =
     andThen (case job of
                Some jref \<Rightarrow> UpdateTaskStatus w jref tref Allocated
              | None \<Rightarrow> Inr w) (\<lambda>w1.
       andThen (setNodeName w1 tref hostname) (\<lambda>w2.
         andThen (case ssn_NodeIndex ssn hostname of
                    Some nref \<Rightarrow>
                      andThen (deref (w_nodes w2) nref) (\<lambda>ni.
                        andThen (AddTask (w_tasks w2) ni tref) (\<lambda>ni'.
                          Inr (w2\<lparr>w_nodes := (w_nodes w2)(nref \<mapsto> ni')\<rparr>)))
                  | None \<Rightarrow> Inr w2) (\<lambda>w3.
           Inr (fireAllocate (ssn_eventHandlers ssn) tref w3))))"

text \<open>
  \<open>Allocate\<close>: the readiness test is made with the looked-up job, nil when the lookup
  missed; the loop then reads the bucket through that pointer.
\<close>

definition Allocate :: "Session \<Rightarrow> World \<Rightarrow> ref \<Rightarrow> string \<Rightarrow> panic + (error option \<times> World)" where
  "Allocate ssn w tref hostname =
     andThen (deref (w_tasks w) tref) (\<lambda>task.
       let job = ssn_JobIndex ssn (ti_Job task) in
       andThen (recordAllocation ssn w tref hostname job) (\<lambda>w4.
         if JobReady ssn (case job of None \<Rightarrow> None | Some jref \<Rightarrow> w_jobs w4 jref)
         then
           (case job of
              None \<Rightarrow> Inl NilPointerDereference
            | Some jref \<Rightarrow>
                andThen (deref (w_jobs w4) jref) (\<lambda>j.
                  andThen (dispatchAllocated ssn w4 jref
                             (map fst (ji_TaskStatusIndex j Allocated))) (\<lambda>w5.
                    Inr (None, w5))))
         else Inr (None, w4)))"

fun Preemptable_loop :: "(TaskInfo \<Rightarrow> TaskInfo \<Rightarrow> bool) list \<Rightarrow> TaskInfo \<Rightarrow> TaskInfo \<Rightarrow> bool" where
  "Preemptable_loop [] preemptor preemptee = True"
| "Preemptable_loop (preemptable # fs) preemptor preemptee =
     (if \<not> preemptable preemptor preemptee then False
      else Preemptable_loop fs preemptor preemptee)"

definition Preemptable :: "Session \<Rightarrow> TaskInfo \<Rightarrow> TaskInfo \<Rightarrow> bool" where
  "Preemptable ssn preemptor preemptee =
     (if length (ssn_preemptableFns ssn) = 0 then False
      else Preemptable_loop (ssn_preemptableFns ssn) preemptor preemptee)"

fun firePreempt :: "EventHandler list \<Rightarrow> ref \<Rightarrow> ref \<Rightarrow> World \<Rightarrow> World" where
  "firePreempt [] preemptor preemptee w = w"
| "firePreempt (eh # ehs) preemptor preemptee w =
     (let w1 = (case eh_AllocateFunc eh of
                  None \<Rightarrow> w
                | Some f \<Rightarrow> w\<lparr>w_events := w_events w @ [(f, \<lparr>ev_Task = preemptor\<rparr>)]\<rparr>);
          w2 = (case eh_EvictFunc eh of
                  None \<Rightarrow> w1
                | Some f \<Rightarrow> w1\<lparr>w_events := w_events w1 @ [(f, \<lparr>ev_Task = preemptee\<rparr>)]\<rparr>)
      in firePreempt ehs preemptor preemptee w2)"

definition Preempt :: "Session \<Rightarrow> World \<Rightarrow> ref \<Rightarrow> ref \<Rightarrow> panic + (error option \<times> World)" where
  "Preempt ssn w preemptor preemptee =
     andThen (deref (w_tasks w) preemptee) (\<lambda>task.
       let err = cache_Evict (ssn_cache ssn) (w_evicts w) task;
           w1 = w\<lparr>w_evicts := w_evicts w @ [preemptee]\<rparr>
       in case err of
            Some e \<Rightarrow> Inr (Some e, w1)
          | None \<Rightarrow> Inr (None, firePreempt (ssn_eventHandlers ssn) preemptor preemptee w1))"

fun JobOrderFn_loop :: "(JobInfo \<Rightarrow> JobInfo \<Rightarrow> int) list \<Rightarrow> JobInfo \<Rightarrow> JobInfo \<Rightarrow> bool" where
  "JobOrderFn_loop [] l r = (ji_UID l < ji_UID r)"
| "JobOrderFn_loop (jof # jofs) l r =
     (let j = jof l r in if j \<noteq> 0 then j < 0 else JobOrderFn_loop jofs l r)"

definition JobOrderFn :: "Session \<Rightarrow> JobInfo \<Rightarrow> JobInfo \<Rightarrow> bool" where
  "JobOrderFn ssn l r = JobOrderFn_loop (ssn_jobOrderFns ssn) l r"

fun TaskOrderFn_loop :: "(TaskInfo \<Rightarrow> TaskInfo \<Rightarrow> int) list \<Rightarrow> TaskInfo \<Rightarrow> TaskInfo \<Rightarrow> bool" where
  "TaskOrderFn_loop [] l r = (ti_UID l < ti_UID r)"
| "TaskOrderFn_loop (tof # tofs) l r =
     (let j = tof l r in if j \<noteq> 0 then j < 0 else TaskOrderFn_loop tofs l r)"

definition TaskOrderFn :: "Session \<Rightarrow> TaskInfo \<Rightarrow> TaskInfo \<Rightarrow> bool" where
  "TaskOrderFn ssn l r = TaskOrderFn_loop (ssn_taskOrderFns ssn) l r"

section \<open>Priority queue\<close>

text \<open>
  Modelled from the spec: the priority queue of the util package is not part of the
  sources at hand. It is a queue over a comparator with \<open>Push\<close>, \<open>Pop\<close> and
  \<open>Empty\<close>; \<open>Pop\<close> takes out an element that the comparator puts before the others
  and yields nil (here \<open>None\<close>) on an empty queue.
\<close>

record 'a PriorityQueue =
  pq_items :: "'a list"
  pq_lessFn :: "'a \<Rightarrow> 'a \<Rightarrow> bool"

definition NewPriorityQueue :: "('a \<Rightarrow> 'a \<Rightarrow> bool) \<Rightarrow> 'a PriorityQueue" where
  "NewPriorityQueue lessFn = \<lparr>pq_items = [], pq_lessFn = lessFn\<rparr>"

definition Push :: "'a PriorityQueue \<Rightarrow> 'a \<Rightarrow> 'a PriorityQueue" where
  "Push q x = q\<lparr>pq_items := pq_items q @ [x]\<rparr>"

definition Empty :: "'a PriorityQueue \<Rightarrow> bool" where
  "Empty q \<longleftrightarrow> pq_items q = []"

fun pq_first :: "('a \<Rightarrow> 'a \<Rightarrow> bool) \<Rightarrow> 'a \<Rightarrow> 'a list \<Rightarrow> 'a" where
  "pq_first lessFn best [] = best"
| "pq_first lessFn best (y # ys) = pq_first lessFn (if lessFn y best then y else best) ys"

definition Pop :: "'a PriorityQueue \<Rightarrow> ('a \<times> 'a PriorityQueue) option" where
  "Pop q =
     (case pq_items q of
        [] \<Rightarrow> None
      | x # xs \<Rightarrow>
          (let m = pq_first (pq_lessFn q) x xs
           in Some (m, q\<lparr>pq_items := remove1 m (x # xs)\<rparr>)))"

section \<open>The preempt action (pkg/scheduler/actions/preempt)\<close>

text \<open>
  The queues of the action hold pointers to the session's jobs and tasks. The action
  changes no job and no task, so a comparator reads the objects of the store the action
  starts with; \<open>Execute\<close> follows every pointer where it pushes it.
\<close>

record PreemptQueues =
  preemptors :: "ref PriorityQueue"
  preemptees :: "ref PriorityQueue"
  preemptorTasks :: "JobID \<rightharpoonup> ref PriorityQueue"
  preempteeTasks :: "JobID \<rightharpoonup> ref PriorityQueue"

definition onObjects :: "(ref \<rightharpoonup> 'a) \<Rightarrow> ('a \<Rightarrow> 'a \<Rightarrow> bool) \<Rightarrow> ref \<Rightarrow> ref \<Rightarrow> bool" where
  "onObjects h lessFn l r =
     (case (h l, h r) of (Some a, Some b) \<Rightarrow> lessFn a b | _ \<Rightarrow> False)"

definition jobRevOrderFn :: "Session \<Rightarrow> JobInfo \<Rightarrow> JobInfo \<Rightarrow> bool" where
  "jobRevOrderFn ssn l r = (\<not> JobOrderFn ssn l r)"

definition taskRevOrderFn :: "Session \<Rightarrow> TaskInfo \<Rightarrow> TaskInfo \<Rightarrow> bool" where
  "taskRevOrderFn ssn l r = (\<not> TaskOrderFn ssn l r)"

fun pushTasks :: "(ref \<rightharpoonup> TaskInfo) \<Rightarrow> ref PriorityQueue \<Rightarrow> (TaskID \<times> ref) list
    \<Rightarrow> panic + ref PriorityQueue" where
  "pushTasks th q [] = Inr q"
| "pushTasks th q (kv # kvs) =
     andThen (deref th (snd kv)) (\<lambda>task. pushTasks th (Push q (snd kv)) kvs)"

text \<open>The body of the loop over \<open>ssn.Jobs\<close> that fills the queues.\<close>

definition enqueueJob :: "Session \<Rightarrow> World \<Rightarrow> PreemptQueues \<Rightarrow> ref \<Rightarrow> panic + PreemptQueues" where
  "enqueueJob ssn w qs jref =
     andThen (deref (w_jobs w) jref) (\<lambda>job.
       andThen (pushTasks (w_tasks w)
                  (NewPriorityQueue (onObjects (w_tasks w) (TaskOrderFn ssn)))
                  (ji_TaskStatusIndex job Pending)) (\<lambda>ptq.
         let qs1 = qs\<lparr>preemptors := Push (preemptors qs) jref,
                      preemptorTasks := (preemptorTasks qs)(ji_UID job \<mapsto> ptq)\<rparr>
         in if length (ji_TaskStatusIndex job Running) \<noteq> 0
            then
              andThen (pushTasks (w_tasks w)
                         (NewPriorityQueue (onObjects (w_tasks w) (taskRevOrderFn ssn)))
                         (ji_TaskStatusIndex job Running)) (\<lambda>etq.
                Inr (qs1\<lparr>preemptees := Push (preemptees qs1) jref,
                          preempteeTasks := (preempteeTasks qs1)(ji_UID job \<mapsto> etq)\<rparr>))
            else Inr qs1))"

fun enqueueJobs :: "Session \<Rightarrow> World \<Rightarrow> PreemptQueues \<Rightarrow> ref list \<Rightarrow> panic + PreemptQueues" where
  "enqueueJobs ssn w qs [] = Inr qs"
| "enqueueJobs ssn w qs (jref # jrefs) =
     andThen (enqueueJob ssn w qs jref) (\<lambda>qs'. enqueueJobs ssn w qs' jrefs)"

text \<open>
  The inner loop: starting from a popped preemptee job, pop the next one while the job at
  hand has no task left to preempt and is not the preemptor's job.
\<close>

function nextPreemptee :: "World \<Rightarrow> (JobID \<rightharpoonup> ref PriorityQueue) \<Rightarrow> JobID \<Rightarrow> ref
    \<Rightarrow> ref PriorityQueue \<Rightarrow> panic + (ref \<times> ref PriorityQueue)" where
  "nextPreemptee w etasks preemptorUID preempteeJob q =
     andThen (deref (w_jobs w) preempteeJob) (\<lambda>job.
       case etasks (ji_UID job) of
         None \<Rightarrow> Inl NilPointerDereference
       | Some tq \<Rightarrow>
           if Empty tq \<and> preemptorUID \<noteq> ji_UID job
           then (case Pop q of
                   None \<Rightarrow> Inl EmptyQueue
                 | Some (next_job, q') \<Rightarrow> nextPreemptee w etasks preemptorUID next_job q')
           else Inr (preempteeJob, q))"
  by pat_completeness auto

lemma pq_first_mem: "pq_first lessFn best ys \<in> set (best # ys)"
  by (induction ys arbitrary: best) auto

lemma Pop_shorter:
  assumes "Pop q = Some (m, q')"
  shows "length (pq_items q') < length (pq_items q)"
proof -
  from assms obtain x xs where q: "pq_items q = x # xs"
    by (auto simp: Pop_def split: list.splits)
  with assms have m: "m = pq_first (pq_lessFn q) x xs"
    and q': "pq_items q' = remove1 m (x # xs)"
    by (auto simp: Pop_def Let_def)
  have "m \<in> set (x # xs)" unfolding m by (rule pq_first_mem)
  then have "length (remove1 m (x # xs)) < length (x # xs)"
    by (simp only: length_remove1 if_True) simp
  then show ?thesis by (simp only: q q')
qed

termination nextPreemptee
  by (relation "measure (\<lambda>(w, etasks, uid, j, q). length (pq_items q))")
     (auto dest: Pop_shorter)

text \<open>
  One round of the main loop, in two parts. The first part (up to the two task pops)
  either ends the loop, or goes to the next round without a preemptor, or selects a
  preemptor task and a preemptee task.
\<close>

record Selection =
  sel_preemptorJob :: ref
  sel_preempteeJob :: ref
  sel_preempteeUID :: JobID
  sel_preemptor :: ref
  sel_preemptee :: ref
  sel_queues :: PreemptQueues

datatype selected = Stop | Skip PreemptQueues | Pair Selection

definition selectPair :: "World \<Rightarrow> PreemptQueues \<Rightarrow> panic + selected" where
  "selectPair w qs =
     (if Empty (preemptors qs) \<or> Empty (preemptees qs) then Inr Stop
      else
        case Pop (preemptors qs) of
          None \<Rightarrow> Inl EmptyQueue
        | Some (preemptorJob, preemptors') \<Rightarrow>
            andThen (deref (w_jobs w) preemptorJob) (\<lambda>pjob.
              case preemptorTasks qs (ji_UID pjob) of
                None \<Rightarrow> Inl NilPointerDereference
              | Some ptq \<Rightarrow>
                  if Empty ptq then Inr (Skip (qs\<lparr>preemptors := preemptors'\<rparr>))
                  else
                    (case Pop (preemptees qs) of
                       None \<Rightarrow> Inl EmptyQueue
                     | Some (first_job, preemptees1) \<Rightarrow>
                         andThen (nextPreemptee w (preempteeTasks qs) (ji_UID pjob)
                                    first_job preemptees1) (\<lambda>found.
                           andThen (deref (w_jobs w) (fst found)) (\<lambda>ejob.
                             if ji_UID pjob = ji_UID ejob then Inr Stop
                             else
                               (case Pop ptq of
                                  None \<Rightarrow> Inl EmptyQueue
                                | Some (preemptor, ptq') \<Rightarrow>
                                    (case preempteeTasks qs (ji_UID ejob) of
                                       None \<Rightarrow> Inl NilPointerDereference
                                     | Some etq \<Rightarrow>
                                         (case Pop etq of
                                            None \<Rightarrow> Inl EmptyQueue
                                          | Some (preemptee, etq') \<Rightarrow>
                                              Inr (Pair
                                                \<lparr>sel_preemptorJob = preemptorJob,
                                                 sel_preempteeJob = fst found,
                                                 sel_preempteeUID = ji_UID ejob,
                                                 sel_preemptor = preemptor,
                                                 sel_preemptee = preemptee,
                                                 sel_queues =
                                                   \<lparr>preemptors = preemptors',
                                                    preemptees = snd found,
                                                    preemptorTasks =
                                                      (preemptorTasks qs)(ji_UID pjob \<mapsto> ptq'),
                                                    preempteeTasks =
                                                      (preempteeTasks qs)(ji_UID ejob \<mapsto> etq')\<rparr>\<rparr>)))))))))"

text \<open>
  The second part: the \<open>Preemptable\<close> test, the call of \<open>Preempt\<close>, and the pushes
  that end the round. The result holds the flag \<open>preempted\<close>, the queues and the world.
\<close>

definition tryPreempt :: "Session \<Rightarrow> World \<Rightarrow> ref \<Rightarrow> ref \<Rightarrow> panic + (bool \<times> World)" where
  "tryPreempt ssn w preemptor preemptee =
     andThen (deref (w_tasks w) preemptor) (\<lambda>a.
       andThen (deref (w_tasks w) preemptee) (\<lambda>b.
         if Preemptable ssn a b
         then andThen (Preempt ssn w preemptor preemptee) (\<lambda>r.
                case fst r of
                  Some err \<Rightarrow> Inr (False, snd r)
                | None \<Rightarrow> Inr (True, snd r))
         else Inr (False, w)))"

definition requeue :: "Selection \<Rightarrow> bool \<Rightarrow> panic + PreemptQueues" where
  "requeue sel preempted =
     (let qs = sel_queues sel in
      andThen
        (if preempted
         then Inr (qs\<lparr>preemptors := Push (preemptors qs) (sel_preemptorJob sel)\<rparr>)
         else
           (case preempteeTasks qs (sel_preempteeUID sel) of
              None \<Rightarrow> Inl NilPointerDereference
            | Some etq \<Rightarrow>
                Inr (qs\<lparr>preempteeTasks :=
                          (preempteeTasks qs)(sel_preempteeUID sel \<mapsto>
                             Push etq (sel_preemptee sel))\<rparr>)))
        (\<lambda>qs1. Inr (qs1\<lparr>preemptees := Push (preemptees qs1) (sel_preempteeJob sel)\<rparr>)))"

record LoopState =
  ls_queues :: PreemptQueues
  ls_world :: World

datatype 'a flow = Break 'a | Continue 'a

definition loopBody :: "Session \<Rightarrow> LoopState \<Rightarrow> panic + LoopState flow" where
  "loopBody ssn s =
     andThen (selectPair (ls_world s) (ls_queues s)) (\<lambda>sel.
       case sel of
         Stop \<Rightarrow> Inr (Break s)
       | Skip qs \<Rightarrow> Inr (Continue (s\<lparr>ls_queues := qs\<rparr>))
       | Pair p \<Rightarrow>
           andThen (tryPreempt ssn (ls_world s) (sel_preemptor p) (sel_preemptee p)) (\<lambda>r.
             andThen (requeue p (fst r)) (\<lambda>qs.
               Inr (Continue \<lparr>ls_queues = qs, ls_world = snd r\<rparr>))))"

text \<open>
  The main loop may, as far as its definition goes, run forever: its value is \<open>None\<close>
  then, \<open>Some (Inl p)\<close> when a round panics and \<open>Some (Inr s)\<close> when it ends in \<open>s\<close>.
\<close>

partial_function (option) mainLoop :: "Session \<Rightarrow> LoopState \<Rightarrow> (panic + LoopState) option" where
  "mainLoop ssn s =
     (case loopBody ssn s of
        Inl p \<Rightarrow> Some (Inl p)
      | Inr (Break s') \<Rightarrow> Some (Inr s')
      | Inr (Continue s') \<Rightarrow> mainLoop ssn s')"

definition Execute :: "Session \<Rightarrow> World \<Rightarrow> (panic + LoopState) option" where
  "Execute ssn w =
     (case enqueueJobs ssn w
             \<lparr>preemptors = NewPriorityQueue (onObjects (w_jobs w) (JobOrderFn ssn)),
              preemptees = NewPriorityQueue (onObjects (w_jobs w) (jobRevOrderFn ssn)),
              preemptorTasks = Map.empty, preempteeTasks = Map.empty\<rparr>
             (ssn_Jobs ssn) of
        Inl p \<Rightarrow> Some (Inl p)
      | Inr qs \<Rightarrow> mainLoop ssn \<lparr>ls_queues = qs, ls_world = w\<rparr>)"

section \<open>Sequences of node operations\<close>

text \<open>
  A sequence of \<open>AddTask\<close>, \<open>RemoveTask\<close> and \<open>PipelineTask\<close> calls on one node; the
  run stops at the first call that does not return.
\<close>

datatype node_op = DoAddTask ref | DoRemoveTask ref | DoPipelineTask ref

fun applyOp :: "(ref \<rightharpoonup> TaskInfo) \<Rightarrow> NodeInfo \<Rightarrow> node_op \<Rightarrow> panic + NodeInfo" where
  "applyOp th ni (DoAddTask t) = AddTask th ni t"
| "applyOp th ni (DoRemoveTask t) = RemoveTask th ni t"
| "applyOp th ni (DoPipelineTask t) = PipelineTask th ni t"

fun runOps :: "(ref \<rightharpoonup> TaskInfo) \<Rightarrow> NodeInfo \<Rightarrow> node_op list \<Rightarrow> panic + NodeInfo" where
  "runOps th ni [] = Inr ni"
| "runOps th ni (x # xs) = andThen (applyOp th ni x) (\<lambda>ni'. runOps th ni' xs)"

text \<open>The equation Used - Releasing + Idle = Allocatable, componentwise.\<close>

definition usedReleasingIdle :: "NodeInfo \<Rightarrow> bool" where
  "usedReleasingIdle n \<longleftrightarrow>
     MilliCPU (ni_Used n) - MilliCPU (ni_Releasing n) + MilliCPU (ni_Idle n)
       = MilliCPU (ni_Allocatable n) \<and>
     Memory (ni_Used n) - Memory (ni_Releasing n) + Memory (ni_Idle n)
       = Memory (ni_Allocatable n) \<and>
     MilliGPU (ni_Used n) - MilliGPU (ni_Releasing n) + MilliGPU (ni_Idle n)
       = MilliGPU (ni_Allocatable n)"

text \<open>
  The request of a task that a \<open>PipelineTask\<close> call places on a node with a backing
  object, and the sum of these requests over a sequence of calls.
\<close>

definition placedByPipeline :: "(ref \<rightharpoonup> TaskInfo) \<Rightarrow> NodeInfo \<Rightarrow> node_op \<Rightarrow> Resource" where
  "placedByPipeline th ni x =
     (case x of
        DoPipelineTask t \<Rightarrow>
          (case th t of
             None \<Rightarrow> EmptyResource
           | Some task \<Rightarrow>
               if map_of (ni_Tasks ni) (PodKey (ti_Pod task)) = None \<and> ni_Node ni \<noteq> None
               then ti_Resreq task else EmptyResource)
      | _ \<Rightarrow> EmptyResource)"

fun pipelinedTotal :: "(ref \<rightharpoonup> TaskInfo) \<Rightarrow> NodeInfo \<Rightarrow> node_op list \<Rightarrow> Resource" where
  "pipelinedTotal th ni [] = EmptyResource"
| "pipelinedTotal th ni (x # xs) =
     (case applyOp th ni x of
        Inl p \<Rightarrow> EmptyResource
      | Inr ni' \<Rightarrow> Add (placedByPipeline th ni x) (pipelinedTotal th ni' xs))"

text \<open>Sample objects: a node with four CPUs, a task being released and a pending task.\<close>

definition sampleNode :: Node where
  "sampleNode =
     \<lparr>node_Name = ''n1'',
      node_Allocatable = \<lparr>MilliCPU = 4, Memory = 0, MilliGPU = 0\<rparr>,
      node_Capacity = \<lparr>MilliCPU = 4, Memory = 0, MilliGPU = 0\<rparr>\<rparr>"

definition sampleTask :: "string \<Rightarrow> TaskStatus \<Rightarrow> int \<Rightarrow> TaskInfo" where
  "sampleTask name status cpu =
     \<lparr>ti_UID = name, ti_Job = ''j1'', ti_Name = name, ti_Namespace = ''ns'',
      ti_NodeName = [], ti_Resreq = \<lparr>MilliCPU = cpu, Memory = 0, MilliGPU = 0\<rparr>,
      ti_Status = status, ti_Pod = \<lparr>pod_Namespace = ''ns'', pod_Name = name\<rparr>\<rparr>"

definition sampleTasks :: "ref \<rightharpoonup> TaskInfo" where
  "sampleTasks = [10 \<mapsto> sampleTask ''old'' Releasing 4, 11 \<mapsto> sampleTask ''new'' Pending 4]"

text \<open>The sample node after the released task was added, and after the pending task was pipelined.\<close>

definition sampleReleasingNode :: NodeInfo where
  "sampleReleasingNode =
     \<lparr>ni_Name = ''n1'', ni_Node = Some sampleNode,
      ni_Releasing = \<lparr>MilliCPU = 4, Memory = 0, MilliGPU = 0\<rparr>,
      ni_Idle = \<lparr>MilliCPU = 0, Memory = 0, MilliGPU = 0\<rparr>,
      ni_Used = \<lparr>MilliCPU = 4, Memory = 0, MilliGPU = 0\<rparr>,
      ni_Allocatable = \<lparr>MilliCPU = 4, Memory = 0, MilliGPU = 0\<rparr>,
      ni_Capability = \<lparr>MilliCPU = 4, Memory = 0, MilliGPU = 0\<rparr>,
      ni_Tasks = [(''ns/old'', 10)]\<rparr>"

definition samplePipelinedNode :: NodeInfo where
  "samplePipelinedNode =
     \<lparr>ni_Name = ''n1'', ni_Node = Some sampleNode,
      ni_Releasing = \<lparr>MilliCPU = 0, Memory = 0, MilliGPU = 0\<rparr>,
      ni_Idle = \<lparr>MilliCPU = 0, Memory = 0, MilliGPU = 0\<rparr>,
      ni_Used = \<lparr>MilliCPU = 8, Memory = 0, MilliGPU = 0\<rparr>,
      ni_Allocatable = \<lparr>MilliCPU = 4, Memory = 0, MilliGPU = 0\<rparr>,
      ni_Capability = \<lparr>MilliCPU = 4, Memory = 0, MilliGPU = 0\<rparr>,
      ni_Tasks = [(''ns/old'', 10), (''ns/new'', 11)]\<rparr>"

text \<open>A sample job, cache, session and store.\<close>

definition sampleJob :: "JobID \<Rightarrow> (TaskID \<times> ref) list \<Rightarrow> (TaskID \<times> ref) list \<Rightarrow> JobInfo" where
  "sampleJob uid pending running =
     \<lparr>ji_UID = uid, ji_Name = uid, ji_Namespace = ''ns'', ji_Queue = ''default'',
      ji_Priority = 0, ji_MinAvailable = 2, ji_Tasks = pending @ running,
      ji_TaskStatusIndex = (\<lambda>status. [])(Pending := pending, Running := running)\<rparr>"

definition sampleCache :: Cache where
  "sampleCache = \<lparr>cache_Bind = (\<lambda>calls task hostname. None),
                  cache_Evict = (\<lambda>calls task. None)\<rparr>"

definition sampleSession :: Session where
  "sampleSession =
     \<lparr>ssn_ID = ''s1'', ssn_cache = sampleCache,
      ssn_Jobs = [20], ssn_JobIndex = [''j1'' \<mapsto> 20],
      ssn_Nodes = [30], ssn_NodeIndex = [''n1'' \<mapsto> 30],
      ssn_Backlog = [], ssn_plugins = [''gang''],
      ssn_eventHandlers = [\<lparr>eh_AllocateFunc = Some ''onAllocate'', eh_EvictFunc = Some ''onEvict''\<rparr>],
      ssn_jobOrderFns = [], ssn_taskOrderFns = [], ssn_preemptableFns = [],
      ssn_jobReadyFns = []\<rparr>"

definition sampleWorld :: "(ref \<rightharpoonup> TaskInfo) \<Rightarrow> (ref \<rightharpoonup> JobInfo) \<Rightarrow> World" where
  "sampleWorld th jh =
     \<lparr>w_tasks = th, w_jobs = jh, w_nodes = [30 \<mapsto> NewNodeInfo (Some sampleNode)],
      w_binds = [], w_evicts = [], w_events = []\<rparr>"

text \<open>One job that holds a pending and a running task.\<close>

definition loneJobWorld :: World where
  "loneJobWorld =
     sampleWorld [11 \<mapsto> sampleTask ''new'' Pending 4, 12 \<mapsto> sampleTask ''run'' Running 4]
       [20 \<mapsto> sampleJob ''j1'' [(''ns/new'', 11)] [(''ns/run'', 12)]]"

text \<open>Two jobs: the first holds a pending task, the second a running task.\<close>

definition twoJobsWorld :: World where
  "twoJobsWorld =
     sampleWorld [11 \<mapsto> sampleTask ''new'' Pending 4,
                  12 \<mapsto> (sampleTask ''run'' Running 4)\<lparr>ti_Job := ''j2''\<rparr>]
       [20 \<mapsto> sampleJob ''j1'' [(''ns/new'', 11)] [],
        21 \<mapsto> sampleJob ''j2'' [] [(''ns/run'', 12)]]"

definition twoJobsQueues :: PreemptQueues where
  "twoJobsQueues =
     \<lparr>preemptors = \<lparr>pq_items = [20, 21],
                     pq_lessFn = onObjects (w_jobs twoJobsWorld) (JobOrderFn sampleSession)\<rparr>,
      preemptees = \<lparr>pq_items = [21],
                     pq_lessFn = onObjects (w_jobs twoJobsWorld) (jobRevOrderFn sampleSession)\<rparr>,
      preemptorTasks =
        [''j1'' \<mapsto> \<lparr>pq_items = [11],
                      pq_lessFn = onObjects (w_tasks twoJobsWorld) (TaskOrderFn sampleSession)\<rparr>,
         ''j2'' \<mapsto> \<lparr>pq_items = [],
                      pq_lessFn = onObjects (w_tasks twoJobsWorld) (TaskOrderFn sampleSession)\<rparr>],
      preempteeTasks =
        [''j2'' \<mapsto> \<lparr>pq_items = [12],
                      pq_lessFn = onObjects (w_tasks twoJobsWorld) (taskRevOrderFn sampleSession)\<rparr>]\<rparr>"

definition twoJobsPair :: Selection where
  "twoJobsPair =
     \<lparr>sel_preemptorJob = 20, sel_preempteeJob = 21, sel_preempteeUID = ''j2'',
      sel_preemptor = 11, sel_preemptee = 12,
      sel_queues = twoJobsQueues
        \<lparr>preemptors := (preemptors twoJobsQueues)\<lparr>pq_items := [21]\<rparr>,
         preemptees := (preemptees twoJobsQueues)\<lparr>pq_items := []\<rparr>,
         preemptorTasks := (preemptorTasks twoJobsQueues)
           (''j1'' \<mapsto> \<lparr>pq_items = [],
              pq_lessFn = onObjects (w_tasks twoJobsWorld) (TaskOrderFn sampleSession)\<rparr>),
         preempteeTasks := (preempteeTasks twoJobsQueues)
           (''j2'' \<mapsto> \<lparr>pq_items = [],
              pq_lessFn = onObjects (w_tasks twoJobsWorld) (taskRevOrderFn sampleSession)\<rparr>)\<rparr>\<rparr>"

text \<open>A readiness predicate: at least \<open>n\<close> tasks of the job are in the Allocated bucket.\<close>

definition gangReady :: "nat \<Rightarrow> JobInfo option \<Rightarrow> bool" where
  "gangReady n obj =
     (case obj of None \<Rightarrow> False | Some job \<Rightarrow> n \<le> length (ji_TaskStatusIndex job Allocated))"

text \<open>A session with one function registered in every policy list.\<close>

definition policySession :: Session where
  "policySession =
     AddJobReadyFn
       (AddPreemptableFn
          (AddTaskOrderFn (AddJobOrderFn sampleSession (\<lambda>l r. 0)) (\<lambda>l r. 0))
          (\<lambda>a b. True))
       (gangReady 2)"

text \<open>A session whose job index misses the job of the task, and a store with that task.\<close>

definition missSession :: Session where
  "missSession = sampleSession\<lparr>ssn_JobIndex := Map.empty\<rparr>"

definition missWorld :: World where
  "missWorld = sampleWorld [11 \<mapsto> sampleTask ''new'' Pending 4] Map.empty"

text \<open>A session whose cache refuses every \<open>Bind\<close>, and a store with a job of one task.\<close>

definition refusingSession :: Session where
  "refusingSession =
     sampleSession\<lparr>ssn_cache := \<lparr>cache_Bind = (\<lambda>calls task hostname. Some ''bind failed''),
                                   cache_Evict = (\<lambda>calls task. None)\<rparr>\<rparr>"

definition oneTaskWorld :: World where
  "oneTaskWorld =
     sampleWorld [11 \<mapsto> sampleTask ''new'' Pending 4]
       [20 \<mapsto> sampleJob ''j1'' [(''ns/new'', 11)] []]"

text \<open>
  What stays true of a task \<open>t\<close> from the moment \<open>Allocate\<close> has put it on a node
  (as the object \<open>added\<close>): its pod, request and job, and whether its status is
  Releasing. A task that was added as Releasing is unknown to its job.
\<close>

definition heldAs :: "Session \<Rightarrow> ref \<Rightarrow> TaskInfo \<Rightarrow> (ref \<rightharpoonup> TaskInfo) \<Rightarrow> (ref \<rightharpoonup> JobInfo) \<Rightarrow> bool" where
  "heldAs ssn t added th jh \<longleftrightarrow>
     (case th t of
        None \<Rightarrow> False
      | Some task \<Rightarrow>
          ti_Pod task = ti_Pod added \<and> ti_Resreq task = ti_Resreq added
          \<and> ti_Job task = ti_Job added
          \<and> (ti_Status task = Releasing \<longleftrightarrow> ti_Status added = Releasing)
          \<and> (ti_Status added = Releasing \<longrightarrow>
               (case ssn_JobIndex ssn (ti_Job added) of
                  None \<Rightarrow> True
                | Some jref \<Rightarrow>
                    (case jh jref of
                       None \<Rightarrow> False
                     | Some job \<Rightarrow> map_of (ji_Tasks job) (PodKey (ti_Pod added)) = None))))"






section \<open>Basic facts\<close>

lemma andThen_Inl [simp]: "andThen (Inl p) f = Inl p"
  by (simp add: andThen_def)

lemma andThen_Inr [simp]: "andThen (Inr x) f = f x"
  by (simp add: andThen_def)

lemma andThen_eq_Inr: "andThen m f = Inr y \<longleftrightarrow> (\<exists>x. m = Inr x \<and> f x = Inr y)"
  by (cases m) auto

lemma deref_eq_Inr [simp]: "deref h r = Inr x \<longleftrightarrow> h r = Some x"
  by (auto simp: deref_def split: option.splits)

lemma deref_None [simp]: "h r = None \<Longrightarrow> deref h r = Inl NilPointerDereference"
  by (simp add: deref_def)

lemma deref_Some [simp]: "h r = Some x \<Longrightarrow> deref h r = Inr x"
  by (simp add: deref_def)

lemma Resource_eqI:
  "MilliCPU a = MilliCPU b \<Longrightarrow> Memory a = Memory b \<Longrightarrow> MilliGPU a = MilliGPU b
   \<Longrightarrow> (a::Resource) = b"
  by simp

lemma Sub_eq_Inr:
  "Sub r rr = Inr d \<longleftrightarrow> LessEqual rr r \<and> Add d rr = r"
  by (auto simp: Sub_def Add_def)

lemma Add_sel [simp]:
  "MilliCPU (Add a b) = MilliCPU a + MilliCPU b"
  "Memory (Add a b) = Memory a + Memory b"
  "MilliGPU (Add a b) = MilliGPU a + MilliGPU b"
  by (simp_all add: Add_def)

lemma Empty_sel [simp]:
  "MilliCPU EmptyResource = 0" "Memory EmptyResource = 0" "MilliGPU EmptyResource = 0"
  by (simp_all add: EmptyResource_def)

lemma Add_eq_iff:
  "Add a b = c \<longleftrightarrow> MilliCPU a + MilliCPU b = MilliCPU c \<and> Memory a + Memory b = Memory c
     \<and> MilliGPU a + MilliGPU b = MilliGPU c"
  by (cases c) (auto simp: Add_def)

lemma Resource_eq_iff:
  "(a::Resource) = b \<longleftrightarrow> MilliCPU a = MilliCPU b \<and> Memory a = Memory b \<and> MilliGPU a = MilliGPU b"
  by auto

text \<open>The node operations, case by case.\<close>

lemma AddTask_nil: "th t = None \<Longrightarrow> AddTask th ni t = Inl NilPointerDereference"
  by (simp add: AddTask_def)

lemma AddTask_present:
  "th t = Some task \<Longrightarrow> map_of (ni_Tasks ni) (PodKey (ti_Pod task)) = Some r
   \<Longrightarrow> AddTask th ni t = Inr ni"
  by (simp add: AddTask_def)

lemma AddTask_virtual:
  "th t = Some task \<Longrightarrow> map_of (ni_Tasks ni) (PodKey (ti_Pod task)) = None
   \<Longrightarrow> ni_Node ni = None
   \<Longrightarrow> AddTask th ni t =
         Inr (ni\<lparr>ni_Tasks := AList.update (PodKey (ti_Pod task)) t (ni_Tasks ni)\<rparr>)"
  by (simp add: AddTask_def)

lemma AddTask_real:
  "th t = Some task \<Longrightarrow> map_of (ni_Tasks ni) (PodKey (ti_Pod task)) = None
   \<Longrightarrow> ni_Node ni = Some nd
   \<Longrightarrow> AddTask th ni t =
         andThen (Sub (ni_Idle ni) (ti_Resreq task)) (\<lambda>idle.
           Inr (ni\<lparr>ni_Releasing :=
                      (if ti_Status task = Releasing
                       then Add (ni_Releasing ni) (ti_Resreq task) else ni_Releasing ni),
                    ni_Idle := idle,
                    ni_Used := Add (ni_Used ni) (ti_Resreq task),
                    ni_Tasks := AList.update (PodKey (ti_Pod task)) t (ni_Tasks ni)\<rparr>))"
  by (cases "Sub (ni_Idle ni) (ti_Resreq task)") (simp_all add: AddTask_def Let_def)

lemma PipelineTask_nil: "th t = None \<Longrightarrow> PipelineTask th ni t = Inl NilPointerDereference"
  by (simp add: PipelineTask_def)

lemma PipelineTask_present:
  "th t = Some task \<Longrightarrow> map_of (ni_Tasks ni) (PodKey (ti_Pod task)) = Some r
   \<Longrightarrow> PipelineTask th ni t = Inr ni"
  by (simp add: PipelineTask_def)

lemma PipelineTask_virtual:
  "th t = Some task \<Longrightarrow> map_of (ni_Tasks ni) (PodKey (ti_Pod task)) = None
   \<Longrightarrow> ni_Node ni = None
   \<Longrightarrow> PipelineTask th ni t =
         Inr (ni\<lparr>ni_Tasks := AList.update (PodKey (ti_Pod task)) t (ni_Tasks ni)\<rparr>)"
  by (simp add: PipelineTask_def)

lemma PipelineTask_real:
  "th t = Some task \<Longrightarrow> map_of (ni_Tasks ni) (PodKey (ti_Pod task)) = None
   \<Longrightarrow> ni_Node ni = Some nd
   \<Longrightarrow> PipelineTask th ni t =
         andThen (Sub (ni_Releasing ni) (ti_Resreq task)) (\<lambda>rel.
           Inr (ni\<lparr>ni_Releasing := rel,
                    ni_Used := Add (ni_Used ni) (ti_Resreq task),
                    ni_Tasks := AList.update (PodKey (ti_Pod task)) t (ni_Tasks ni)\<rparr>))"
  by (cases "Sub (ni_Releasing ni) (ti_Resreq task)") (simp_all add: PipelineTask_def)

lemma RemoveTask_nil: "th t = None \<Longrightarrow> RemoveTask th ni t = Inl NilPointerDereference"
  by (simp add: RemoveTask_def)

lemma RemoveTask_absent:
  "th t = Some ti \<Longrightarrow> map_of (ni_Tasks ni) (PodKey (ti_Pod ti)) = None
   \<Longrightarrow> RemoveTask th ni t = Inr ni"
  by (simp add: RemoveTask_def)

lemma RemoveTask_virtual:
  "th t = Some ti \<Longrightarrow> map_of (ni_Tasks ni) (PodKey (ti_Pod ti)) = Some tref
   \<Longrightarrow> ni_Node ni = None
   \<Longrightarrow> RemoveTask th ni t =
         Inr (ni\<lparr>ni_Tasks := AList.delete (PodKey (ti_Pod ti)) (ni_Tasks ni)\<rparr>)"
  by (simp add: RemoveTask_def)

lemma RemoveTask_real:
  "th t = Some ti \<Longrightarrow> map_of (ni_Tasks ni) (PodKey (ti_Pod ti)) = Some tref
   \<Longrightarrow> ni_Node ni = Some nd \<Longrightarrow> th tref = Some task
   \<Longrightarrow> RemoveTask th ni t =
         andThen (if ti_Status task = Releasing
                  then Sub (ni_Releasing ni) (ti_Resreq task)
                  else Inr (ni_Releasing ni)) (\<lambda>rel.
           andThen (Sub (ni_Used ni) (ti_Resreq task)) (\<lambda>used.
             Inr (ni\<lparr>ni_Releasing := rel,
                      ni_Idle := Add (ni_Idle ni) (ti_Resreq task),
                      ni_Used := used,
                      ni_Tasks := AList.delete (PodKey (ti_Pod ti)) (ni_Tasks ni)\<rparr>)))"
  by (cases "Sub (ni_Releasing ni) (ti_Resreq task)"; cases "Sub (ni_Used ni) (ti_Resreq task)")
     (simp_all add: RemoveTask_def)

lemma RemoveTask_real_nil:
  "th t = Some ti \<Longrightarrow> map_of (ni_Tasks ni) (PodKey (ti_Pod ti)) = Some tref
   \<Longrightarrow> ni_Node ni = Some nd \<Longrightarrow> th tref = None
   \<Longrightarrow> RemoveTask th ni t = Inl NilPointerDereference"
  by (simp add: RemoveTask_def)

text \<open>What one call does to Used + Idle.\<close>

lemma AddTask_sum:
  assumes "AddTask th ni t = Inr ni'"
  shows "Add (ni_Used ni') (ni_Idle ni') = Add (ni_Used ni) (ni_Idle ni)
         \<and> ni_Allocatable ni' = ni_Allocatable ni \<and> ni_Node ni' = ni_Node ni"
proof (cases "th t")
  case None
  with assms show ?thesis by (simp add: AddTask_nil)
next
  case (Some task)
  show ?thesis
  proof (cases "map_of (ni_Tasks ni) (PodKey (ti_Pod task))")
    case (Some r)
    with assms \<open>th t = Some task\<close> show ?thesis by (simp add: AddTask_present)
  next
    case None
    show ?thesis
    proof (cases "ni_Node ni")
      case None
      with assms \<open>th t = Some task\<close> \<open>map_of (ni_Tasks ni) (PodKey (ti_Pod task)) = None\<close>
      show ?thesis by (auto simp: AddTask_virtual)
    next
      case (Some nd)
      with assms \<open>th t = Some task\<close> \<open>map_of (ni_Tasks ni) (PodKey (ti_Pod task)) = None\<close>
      show ?thesis
        by (auto simp: AddTask_real andThen_eq_Inr Sub_eq_Inr Add_eq_iff)
    qed
  qed
qed

lemma RemoveTask_sum:
  assumes "RemoveTask th ni t = Inr ni'"
  shows "Add (ni_Used ni') (ni_Idle ni') = Add (ni_Used ni) (ni_Idle ni)
         \<and> ni_Allocatable ni' = ni_Allocatable ni \<and> ni_Node ni' = ni_Node ni"
proof (cases "th t")
  case None
  with assms show ?thesis by (simp add: RemoveTask_nil)
next
  case (Some ti)
  note ti = this
  show ?thesis
  proof (cases "map_of (ni_Tasks ni) (PodKey (ti_Pod ti))")
    case None
    with assms ti show ?thesis by (simp add: RemoveTask_absent)
  next
    case (Some tref)
    note tref = this
    show ?thesis
    proof (cases "ni_Node ni")
      case None
      with assms ti tref show ?thesis by (auto simp: RemoveTask_virtual)
    next
      case (Some nd)
      note nd = this
      show ?thesis
      proof (cases "th tref")
        case None
        with assms ti tref nd show ?thesis by (simp add: RemoveTask_real_nil)
      next
        case (Some task)
        with assms ti tref nd show ?thesis
          by (auto simp: RemoveTask_real andThen_eq_Inr Sub_eq_Inr Add_eq_iff)
      qed
    qed
  qed
qed

lemma PipelineTask_sum:
  assumes "PipelineTask th ni t = Inr ni'"
  shows "Add (ni_Used ni') (ni_Idle ni')
           = Add (Add (ni_Used ni) (ni_Idle ni)) (placedByPipeline th ni (DoPipelineTask t))
         \<and> ni_Allocatable ni' = ni_Allocatable ni \<and> ni_Node ni' = ni_Node ni"
proof (cases "th t")
  case None
  with assms show ?thesis by (simp add: PipelineTask_nil)
next
  case (Some task)
  note task = this
  show ?thesis
  proof (cases "map_of (ni_Tasks ni) (PodKey (ti_Pod task))")
    case (Some r)
    with assms task show ?thesis
      by (simp add: PipelineTask_present placedByPipeline_def Add_eq_iff)
  next
    case None
    note absent = this
    show ?thesis
    proof (cases "ni_Node ni")
      case None
      with assms task absent show ?thesis
        by (auto simp: PipelineTask_virtual placedByPipeline_def Add_eq_iff)
    next
      case (Some nd)
      with assms task absent show ?thesis
        by (auto simp: PipelineTask_real placedByPipeline_def andThen_eq_Inr Add_eq_iff)
    qed
  qed
qed

lemma applyOp_sum:
  assumes "applyOp th ni x = Inr ni'"
  shows "Add (ni_Used ni') (ni_Idle ni')
           = Add (Add (ni_Used ni) (ni_Idle ni)) (placedByPipeline th ni x)
         \<and> ni_Allocatable ni' = ni_Allocatable ni \<and> ni_Node ni' = ni_Node ni"
proof (cases x)
  case (DoAddTask t)
  with assms AddTask_sum [of th ni t ni'] show ?thesis
    by (simp add: placedByPipeline_def Resource_eq_iff)
next
  case (DoRemoveTask t)
  with assms RemoveTask_sum [of th ni t ni'] show ?thesis
    by (simp add: placedByPipeline_def Resource_eq_iff)
next
  case (DoPipelineTask t)
  with assms PipelineTask_sum [of th ni t ni'] show ?thesis by simp
qed

lemma runOps_sum:
  "runOps th ni xs = Inr n \<Longrightarrow>
     Add (ni_Used n) (ni_Idle n) = Add (Add (ni_Used ni) (ni_Idle ni)) (pipelinedTotal th ni xs)
     \<and> ni_Allocatable n = ni_Allocatable ni \<and> ni_Node n = ni_Node ni"
proof (induction xs arbitrary: ni)
  case Nil
  then show ?case by (simp add: Resource_eq_iff)
next
  case (Cons x xs)
  from Cons.prems obtain ni' where step: "applyOp th ni x = Inr ni'"
    and rest: "runOps th ni' xs = Inr n"
    by (auto simp: andThen_eq_Inr)
  from applyOp_sum [OF step] Cons.IH [OF rest] step show ?case
    by (simp add: Resource_eq_iff)
qed

lemma sample_AddTask:
  "AddTask sampleTasks (NewNodeInfo (Some sampleNode)) 10 = Inr sampleReleasingNode"
  by (simp add: AddTask_def sampleTasks_def sampleTask_def sampleNode_def NewNodeInfo_def
        NewResource_def PodKey_def Sub_def LessEqual_def Add_def EmptyResource_def
        sampleReleasingNode_def)

lemma sample_PipelineTask:
  "PipelineTask sampleTasks sampleReleasingNode 11 = Inr samplePipelinedNode"
  by (simp add: PipelineTask_def sampleTasks_def sampleTask_def sampleReleasingNode_def
        PodKey_def Sub_def LessEqual_def Add_def samplePipelinedNode_def)

lemma Preemptable_loop_all: "Preemptable_loop fs a b = list_all (\<lambda>p. p a b) fs"
  by (induction fs) auto

section \<open>Node accounting\<close>

text \<open>
  C1 (as stated). After any sequence of \<open>AddTask\<close>, \<open>RemoveTask\<close> and
  \<open>PipelineTask\<close> calls that return, starting from a freshly constructed node with a
  backing object, Used - Releasing + Idle = Allocatable componentwise. This fails: adding
  a task whose status is Releasing to the fresh sample node of four CPUs gives
  Used = 4, Releasing = 4, Idle = 0.
\<close>

theorem node_accounting_counterexample:
  "runOps sampleTasks (NewNodeInfo (Some sampleNode)) [DoAddTask 10] = Inr sampleReleasingNode
   \<and> ni_Node sampleReleasingNode \<noteq> None
   \<and> \<not> usedReleasingIdle sampleReleasingNode"
  by (simp add: sample_AddTask) (simp add: sampleReleasingNode_def usedReleasingIdle_def)

text \<open>
  C1 (amended). After any such sequence, Used + Idle = Allocatable + P componentwise,
  where P is the sum of the requests of the tasks that \<open>PipelineTask\<close> calls placed on
  the node (P is zero when there is no such call): \<open>AddTask\<close> and \<open>RemoveTask\<close> move
  a request between Idle and Used whatever the status of the task, and \<open>PipelineTask\<close>
  adds the request to Used without touching Idle. Releasing does not enter the equation.
\<close>

theorem node_accounting:
  assumes "runOps th (NewNodeInfo (Some node)) xs = Inr n"
  shows "ni_Node n \<noteq> None \<and>
         Add (ni_Used n) (ni_Idle n)
           = Add (ni_Allocatable n) (pipelinedTotal th (NewNodeInfo (Some node)) xs)"
  using runOps_sum [OF assms]
  by (simp add: NewNodeInfo_def NewResource_def Resource_eq_iff)

theorem node_accounting_witness:
  "runOps sampleTasks (NewNodeInfo (Some sampleNode)) [DoAddTask 10, DoPipelineTask 11]
     = Inr samplePipelinedNode
   \<and> Add (ni_Used samplePipelinedNode) (ni_Idle samplePipelinedNode)
       = Add (ni_Allocatable samplePipelinedNode)
           (pipelinedTotal sampleTasks (NewNodeInfo (Some sampleNode))
              [DoAddTask 10, DoPipelineTask 11])"
proof -
  have run: "runOps sampleTasks (NewNodeInfo (Some sampleNode)) [DoAddTask 10, DoPipelineTask 11]
               = Inr samplePipelinedNode"
    by (simp add: sample_AddTask sample_PipelineTask)
  from node_accounting [OF run] run show ?thesis by simp
qed

section \<open>Preemptable\<close>

text \<open>
  C8. \<open>Preemptable\<close> is false when no predicate is registered; otherwise it is true
  exactly when every registered predicate is true of the pair of tasks.
\<close>

theorem Preemptable_conjunction:
  "Preemptable ssn a b \<longleftrightarrow>
     ssn_preemptableFns ssn \<noteq> [] \<and> list_all (\<lambda>p. p a b) (ssn_preemptableFns ssn)"
  by (simp add: Preemptable_def Preemptable_loop_all)

section \<open>SetNode on a node that has a backing object\<close>

text \<open>
  C10. When the \<open>Node\<close> field is already set, \<open>SetNode\<close> with a node object returns
  and changes \<open>Name\<close>, \<open>Node\<close>, \<open>Allocatable\<close> and \<open>Capability\<close> only: Idle, Used,
  Releasing and the task map stay as they are (Idle is seeded and held tasks are replayed
  only when the field was nil).
\<close>

theorem SetNode_bound_node:
  assumes "ni_Node ni \<noteq> None"
  shows "SetNode th ni (Some node) =
           Inr (ni\<lparr>ni_Name := node_Name node, ni_Node := Some node,
                   ni_Allocatable := NewResource (node_Allocatable node),
                   ni_Capability := NewResource (node_Capacity node)\<rparr>)"
  using assms by (cases "ni_Node ni") (simp_all add: SetNode_def)

theorem SetNode_bound_node_witness:
  "ni_Node sampleReleasingNode \<noteq> None \<and>
   SetNode sampleTasks sampleReleasingNode (Some (sampleNode\<lparr>node_Name := ''n2''\<rparr>)) =
     Inr (sampleReleasingNode\<lparr>ni_Name := ''n2'',
            ni_Node := Some (sampleNode\<lparr>node_Name := ''n2''\<rparr>)\<rparr>)"
proof -
  have bound: "ni_Node sampleReleasingNode \<noteq> None"
    by (simp add: sampleReleasingNode_def)
  from SetNode_bound_node [OF bound, of sampleTasks "sampleNode\<lparr>node_Name := ''n2''\<rparr>"] bound
  show ?thesis
    by (simp add: sampleReleasingNode_def sampleNode_def NewResource_def)
qed

section \<open>The preempt action on a single job\<close>

lemma pushTasks_ok:
  "\<forall>kv \<in> set kvs. th (snd kv) \<noteq> None \<Longrightarrow>
     pushTasks th q kvs = Inr (q\<lparr>pq_items := pq_items q @ map snd kvs\<rparr>)"
proof (induction kvs arbitrary: q)
  case Nil
  then show ?case by simp
next
  case (Cons kv kvs)
  then obtain task where "th (snd kv) = Some task" by auto
  with Cons show ?case by (simp add: Push_def)
qed

lemma Pop_single:
  "pq_items q = [x] \<Longrightarrow> Pop q = Some (x, q\<lparr>pq_items := []\<rparr>)"
  by (simp add: Pop_def)

text \<open>
  C5. When the session holds exactly one job, and that job has at least one Running and
  at least one Pending task, \<open>Execute\<close> returns and leaves the world as it was: no call
  to \<open>Evict\<close> is made. Neither queue is empty when the loop starts; the first round
  ends the loop at the test that the preemptor job and the preemptee job are the same.
  (The pointers of the job and of its Pending and Running tasks are not nil.)
\<close>

theorem single_job_no_eviction:
  assumes jobs: "ssn_Jobs ssn = [jref]"
    and job: "w_jobs w jref = Some job"
    and running: "ji_TaskStatusIndex job Running \<noteq> []"
    and pending: "ji_TaskStatusIndex job Pending \<noteq> []"
    and tasks: "\<forall>kv \<in> set (ji_TaskStatusIndex job Pending @ ji_TaskStatusIndex job Running).
                  w_tasks w (snd kv) \<noteq> None"
  shows "\<exists>qs. \<not> Empty (preemptors qs) \<and> \<not> Empty (preemptees qs)
              \<and> selectPair w qs = Inr Stop
              \<and> Execute ssn w = Some (Inr \<lparr>ls_queues = qs, ls_world = w\<rparr>)"
proof -
  define ptq where "ptq = \<lparr>pq_items = map snd (ji_TaskStatusIndex job Pending),
     pq_lessFn = onObjects (w_tasks w) (TaskOrderFn ssn)\<rparr>"
  define etq where "etq = \<lparr>pq_items = map snd (ji_TaskStatusIndex job Running),
     pq_lessFn = onObjects (w_tasks w) (taskRevOrderFn ssn)\<rparr>"
  define qs where "qs =
     \<lparr>preemptors = \<lparr>pq_items = [jref], pq_lessFn = onObjects (w_jobs w) (JobOrderFn ssn)\<rparr>,
      preemptees = \<lparr>pq_items = [jref], pq_lessFn = onObjects (w_jobs w) (jobRevOrderFn ssn)\<rparr>,
      preemptorTasks = [ji_UID job \<mapsto> ptq], preempteeTasks = [ji_UID job \<mapsto> etq]\<rparr>"
  have p1: "pushTasks (w_tasks w) (NewPriorityQueue (onObjects (w_tasks w) (TaskOrderFn ssn)))
              (ji_TaskStatusIndex job Pending) = Inr ptq"
    using tasks by (simp add: pushTasks_ok NewPriorityQueue_def ptq_def)
  have p2: "pushTasks (w_tasks w) (NewPriorityQueue (onObjects (w_tasks w) (taskRevOrderFn ssn)))
              (ji_TaskStatusIndex job Running) = Inr etq"
    using tasks by (simp add: pushTasks_ok NewPriorityQueue_def etq_def)
  have init: "enqueueJobs ssn w
             \<lparr>preemptors = NewPriorityQueue (onObjects (w_jobs w) (JobOrderFn ssn)),
              preemptees = NewPriorityQueue (onObjects (w_jobs w) (jobRevOrderFn ssn)),
              preemptorTasks = Map.empty, preempteeTasks = Map.empty\<rparr>
             (ssn_Jobs ssn) = Inr qs"
    using job running
    by (simp add: jobs enqueueJob_def p1 p2 Let_def)
       (simp add: qs_def Push_def NewPriorityQueue_def)
  have ne: "\<not> Empty ptq" "\<not> Empty etq"
    using pending running by (simp_all add: Empty_def ptq_def etq_def)
  have next_job: "nextPreemptee w (preempteeTasks qs) (ji_UID job) jref q = Inr (jref, q)" for q
    using job ne by (subst nextPreemptee.simps) (simp add: qs_def)
  have sel: "selectPair w qs = Inr Stop"
    using job ne
    by (simp add: selectPair_def next_job)
       (simp add: qs_def Empty_def Pop_single)
  have "loopBody ssn \<lparr>ls_queues = qs, ls_world = w\<rparr> = Inr (Break \<lparr>ls_queues = qs, ls_world = w\<rparr>)"
    by (simp add: loopBody_def sel)
  then have "mainLoop ssn \<lparr>ls_queues = qs, ls_world = w\<rparr> = Some (Inr \<lparr>ls_queues = qs, ls_world = w\<rparr>)"
    by (subst mainLoop.simps) simp
  with init have "Execute ssn w = Some (Inr \<lparr>ls_queues = qs, ls_world = w\<rparr>)"
    by (simp add: Execute_def)
  moreover have "\<not> Empty (preemptors qs)" "\<not> Empty (preemptees qs)"
    by (simp_all add: qs_def Empty_def)
  ultimately show ?thesis using sel by blast
qed

theorem single_job_no_eviction_witness:
  "ssn_Jobs sampleSession = [20]
   \<and> ji_TaskStatusIndex (sampleJob ''j1'' [(''ns/new'', 11)] [(''ns/run'', 12)]) Running \<noteq> []
   \<and> ji_TaskStatusIndex (sampleJob ''j1'' [(''ns/new'', 11)] [(''ns/run'', 12)]) Pending \<noteq> []
   \<and> (\<exists>qs. Execute sampleSession loneJobWorld
              = Some (Inr \<lparr>ls_queues = qs, ls_world = loneJobWorld\<rparr>))"
proof -
  let ?job = "sampleJob ''j1'' [(''ns/new'', 11)] [(''ns/run'', 12)]"
  have jobs: "ssn_Jobs sampleSession = [20]"
    by (simp add: sampleSession_def)
  have job: "w_jobs loneJobWorld 20 = Some ?job"
    by (simp add: loneJobWorld_def sampleWorld_def)
  have running: "ji_TaskStatusIndex ?job Running \<noteq> []"
    by (simp add: sampleJob_def)
  have pending: "ji_TaskStatusIndex ?job Pending \<noteq> []"
    by (simp add: sampleJob_def)
  have tasks: "\<forall>kv \<in> set (ji_TaskStatusIndex ?job Pending @ ji_TaskStatusIndex ?job Running).
                 w_tasks loneJobWorld (snd kv) \<noteq> None"
    by (simp add: sampleJob_def loneJobWorld_def sampleWorld_def)
  from single_job_no_eviction [OF jobs job running pending tasks] jobs running pending
  show ?thesis by blast
qed

section \<open>The end of a round of the preempt action\<close>

lemma selectPair_Pair:
  assumes sel: "selectPair w qs = Inr (Pair p)"
  shows "\<exists>etq etq'. preempteeTasks qs (sel_preempteeUID p) = Some etq
           \<and> Pop etq = Some (sel_preemptee p, etq')
           \<and> preempteeTasks (sel_queues p) = (preempteeTasks qs)(sel_preempteeUID p \<mapsto> etq')"
proof -
  have ne: "\<not> Empty (preemptors qs)" "\<not> Empty (preemptees qs)"
    using sel by (auto simp: selectPair_def split: if_splits)
  obtain pj prs where pp: "Pop (preemptors qs) = Some (pj, prs)"
    using sel ne by (cases "Pop (preemptors qs)") (auto simp: selectPair_def)
  obtain pjob where pjob: "w_jobs w pj = Some pjob"
    using sel ne pp by (cases "w_jobs w pj") (auto simp: selectPair_def)
  obtain ptq where ptq: "preemptorTasks qs (ji_UID pjob) = Some ptq"
    using sel ne pp pjob by (cases "preemptorTasks qs (ji_UID pjob)") (auto simp: selectPair_def)
  have ptq_ne: "\<not> Empty ptq"
    using sel ne pp pjob ptq by (auto simp: selectPair_def split: if_splits)
  obtain fj pes where pe: "Pop (preemptees qs) = Some (fj, pes)"
    using sel ne pp pjob ptq ptq_ne by (cases "Pop (preemptees qs)") (auto simp: selectPair_def)
  obtain found where found: "nextPreemptee w (preempteeTasks qs) (ji_UID pjob) fj pes = Inr found"
    using sel ne pp pjob ptq ptq_ne pe
    by (cases "nextPreemptee w (preempteeTasks qs) (ji_UID pjob) fj pes")
       (auto simp: selectPair_def)
  obtain ejob where ejob: "w_jobs w (fst found) = Some ejob"
    using sel ne pp pjob ptq ptq_ne pe found
    by (cases "w_jobs w (fst found)") (auto simp: selectPair_def)
  have other: "ji_UID pjob \<noteq> ji_UID ejob"
    using sel ne pp pjob ptq ptq_ne pe found ejob by (auto simp: selectPair_def split: if_splits)
  obtain pr ptq' where ppr: "Pop ptq = Some (pr, ptq')"
    using sel ne pp pjob ptq ptq_ne pe found ejob other
    by (cases "Pop ptq") (auto simp: selectPair_def)
  obtain etq where etq: "preempteeTasks qs (ji_UID ejob) = Some etq"
    using sel ne pp pjob ptq ptq_ne pe found ejob other ppr
    by (cases "preempteeTasks qs (ji_UID ejob)") (auto simp: selectPair_def)
  obtain pe' etq' where ppe: "Pop etq = Some (pe', etq')"
    using sel ne pp pjob ptq ptq_ne pe found ejob other ppr etq
    by (cases "Pop etq") (auto simp: selectPair_def)
  have p: "p = \<lparr>sel_preemptorJob = pj, sel_preempteeJob = fst found,
                sel_preempteeUID = ji_UID ejob, sel_preemptor = pr, sel_preemptee = pe',
                sel_queues = \<lparr>preemptors = prs, preemptees = snd found,
                   preemptorTasks = (preemptorTasks qs)(ji_UID pjob \<mapsto> ptq'),
                   preempteeTasks = (preempteeTasks qs)(ji_UID ejob \<mapsto> etq')\<rparr>\<rparr>"
    using sel ne pp pjob ptq ptq_ne pe found ejob other ppr etq ppe
    by (simp add: selectPair_def)
  show ?thesis using etq ppe by (simp add: p)
qed

lemma tryPreempt_value:
  assumes "w_tasks w preemptor = Some a" "w_tasks w preemptee = Some b"
  shows "tryPreempt ssn w preemptor preemptee =
           (if Preemptable ssn a b
            then (case cache_Evict (ssn_cache ssn) (w_evicts w) b of
                    Some err \<Rightarrow> Inr (False, w\<lparr>w_evicts := w_evicts w @ [preemptee]\<rparr>)
                  | None \<Rightarrow>
                      Inr (True, firePreempt (ssn_eventHandlers ssn) preemptor preemptee
                                   (w\<lparr>w_evicts := w_evicts w @ [preemptee]\<rparr>)))
            else Inr (False, w))"
  using assms
  by (simp add: tryPreempt_def Preempt_def Let_def split: option.splits)

lemma twoJobs_order:
  "\<not> onObjects (w_jobs twoJobsWorld) (JobOrderFn sampleSession) 21 20"
  by (simp add: onObjects_def twoJobsWorld_def sampleWorld_def sampleJob_def JobOrderFn_def
        sampleSession_def)

lemma twoJobs_jobs:
  "w_jobs twoJobsWorld 20 = Some (sampleJob ''j1'' [(''ns/new'', 11)] [])"
  "w_jobs twoJobsWorld 21 = Some (sampleJob ''j2'' [] [(''ns/run'', 12)])"
  by (simp_all add: twoJobsWorld_def sampleWorld_def)

lemma sampleJob_UID [simp]: "ji_UID (sampleJob uid pending running) = uid"
  by (simp add: sampleJob_def)

lemma twoJobs_selectPair: "selectPair twoJobsWorld twoJobsQueues = Inr (Pair twoJobsPair)"
proof -
  have next_job: "nextPreemptee twoJobsWorld (preempteeTasks twoJobsQueues) ''j1'' 21 q
                    = Inr (21, q)" for q
    by (subst nextPreemptee.simps) (simp add: twoJobs_jobs twoJobsQueues_def Empty_def)
  show ?thesis
    by (simp add: selectPair_def Empty_def Pop_def twoJobs_order twoJobs_jobs next_job
          twoJobsPair_def twoJobsQueues_def)
qed

text \<open>
  C6. A round that has selected a preemptor task \<open>a\<close> and a preemptee task \<open>b\<close> (popped
  from the task queue \<open>etq\<close> of the preemptee job, leaving \<open>etq'\<close>) goes on to the next
  round, and always pushes the preemptee job back into \<open>preemptees\<close>. When the pair is
  preemptable and \<open>Evict\<close> returns no error, the preemptor job is pushed back into
  \<open>preemptors\<close> and the preemptee task stays out of its queue. Otherwise the preemptee
  task is pushed back into its queue and \<open>preemptors\<close> stays without the preemptor job.
\<close>

theorem requeue_after_test:
  assumes sel: "selectPair w qs = Inr (Pair p)"
    and a: "w_tasks w (sel_preemptor p) = Some a"
    and b: "w_tasks w (sel_preemptee p) = Some b"
  shows "\<exists>etq etq' qs' w'.
           preempteeTasks qs (sel_preempteeUID p) = Some etq
           \<and> Pop etq = Some (sel_preemptee p, etq')
           \<and> loopBody ssn \<lparr>ls_queues = qs, ls_world = w\<rparr>
               = Inr (Continue \<lparr>ls_queues = qs', ls_world = w'\<rparr>)
           \<and> preemptees qs' = Push (preemptees (sel_queues p)) (sel_preempteeJob p)
           \<and> preemptorTasks qs' = preemptorTasks (sel_queues p)
           \<and> (if Preemptable ssn a b \<and> cache_Evict (ssn_cache ssn) (w_evicts w) b = None
               then preemptors qs' = Push (preemptors (sel_queues p)) (sel_preemptorJob p)
                    \<and> preempteeTasks qs' = (preempteeTasks qs)(sel_preempteeUID p \<mapsto> etq')
               else preemptors qs' = preemptors (sel_queues p)
                    \<and> preempteeTasks qs' =
                        (preempteeTasks qs)(sel_preempteeUID p \<mapsto> Push etq' (sel_preemptee p)))"
proof -
  from selectPair_Pair [OF sel] obtain etq etq'
    where etq: "preempteeTasks qs (sel_preempteeUID p) = Some etq"
      and pop: "Pop etq = Some (sel_preemptee p, etq')"
      and popped: "preempteeTasks (sel_queues p) = (preempteeTasks qs)(sel_preempteeUID p \<mapsto> etq')"
    by blast
  show ?thesis
  proof (cases "Preemptable ssn a b \<and> cache_Evict (ssn_cache ssn) (w_evicts w) b = None")
    case True
    then have "loopBody ssn \<lparr>ls_queues = qs, ls_world = w\<rparr> =
        Inr (Continue \<lparr>ls_queues = (sel_queues p)
               \<lparr>preemptors := Push (preemptors (sel_queues p)) (sel_preemptorJob p),
                preemptees := Push (preemptees (sel_queues p)) (sel_preempteeJob p)\<rparr>,
             ls_world = firePreempt (ssn_eventHandlers ssn) (sel_preemptor p) (sel_preemptee p)
                          (w\<lparr>w_evicts := w_evicts w @ [sel_preemptee p]\<rparr>)\<rparr>)"
      by (simp add: loopBody_def sel tryPreempt_value [OF a b] requeue_def Let_def)
    with True etq pop popped show ?thesis by simp
  next
    case False
    then have "\<exists>w'. tryPreempt ssn w (sel_preemptor p) (sel_preemptee p) = Inr (False, w')"
      by (cases "Preemptable ssn a b"; cases "cache_Evict (ssn_cache ssn) (w_evicts w) b")
         (simp_all add: tryPreempt_value [OF a b])
    then obtain w' where "tryPreempt ssn w (sel_preemptor p) (sel_preemptee p) = Inr (False, w')"
      by blast
    then have "loopBody ssn \<lparr>ls_queues = qs, ls_world = w\<rparr> =
        Inr (Continue \<lparr>ls_queues = (sel_queues p)
               \<lparr>preempteeTasks := (preempteeTasks (sel_queues p))
                   (sel_preempteeUID p \<mapsto> Push etq' (sel_preemptee p)),
                preemptees := Push (preemptees (sel_queues p)) (sel_preempteeJob p)\<rparr>,
             ls_world = w'\<rparr>)"
      by (simp add: loopBody_def sel requeue_def Let_def popped)
    with etq pop popped show ?thesis unfolding if_not_P [OF False] by simp
  qed
qed

theorem requeue_after_test_witness:
  "selectPair twoJobsWorld twoJobsQueues = Inr (Pair twoJobsPair)
   \<and> \<not> Preemptable sampleSession (sampleTask ''new'' Pending 4)
          ((sampleTask ''run'' Running 4)\<lparr>ti_Job := ''j2''\<rparr>)
   \<and> (\<exists>qs'. loopBody sampleSession \<lparr>ls_queues = twoJobsQueues, ls_world = twoJobsWorld\<rparr>
               = Inr (Continue \<lparr>ls_queues = qs', ls_world = twoJobsWorld\<rparr>)
             \<and> pq_items (preemptors qs') = [21]
             \<and> pq_items (preemptees qs') = [21]
             \<and> map_option pq_items (preempteeTasks qs' ''j2'') = Some [12])"
proof -
  let ?a = "sampleTask ''new'' Pending 4"
  let ?b = "(sampleTask ''run'' Running 4)\<lparr>ti_Job := ''j2''\<rparr>"
  have a: "w_tasks twoJobsWorld (sel_preemptor twoJobsPair) = Some ?a"
    by (simp add: twoJobsWorld_def sampleWorld_def twoJobsPair_def)
  have b: "w_tasks twoJobsWorld (sel_preemptee twoJobsPair) = Some ?b"
    by (simp add: twoJobsWorld_def sampleWorld_def twoJobsPair_def)
  have no: "\<not> Preemptable sampleSession ?a ?b"
    by (simp add: Preemptable_def sampleSession_def)
  from requeue_after_test [OF twoJobs_selectPair a b, of sampleSession]
  obtain etq etq' qs' w' where
    etq: "preempteeTasks twoJobsQueues (sel_preempteeUID twoJobsPair) = Some etq"
    and pop: "Pop etq = Some (sel_preemptee twoJobsPair, etq')"
    and body: "loopBody sampleSession \<lparr>ls_queues = twoJobsQueues, ls_world = twoJobsWorld\<rparr>
                 = Inr (Continue \<lparr>ls_queues = qs', ls_world = w'\<rparr>)"
    and pes: "preemptees qs' = Push (preemptees (sel_queues twoJobsPair))
                                 (sel_preempteeJob twoJobsPair)"
    and prs: "preemptors qs' = preemptors (sel_queues twoJobsPair)"
    and ets: "preempteeTasks qs' = (preempteeTasks twoJobsQueues)
                (sel_preempteeUID twoJobsPair \<mapsto> Push etq' (sel_preemptee twoJobsPair))"
    using no by auto
  from etq pop have etq': "pq_items etq' = []"
    by (auto simp: twoJobsQueues_def twoJobsPair_def Pop_def)
  have w': "w' = twoJobsWorld"
    using body no
    by (simp add: loopBody_def twoJobs_selectPair tryPreempt_value [OF a b] andThen_eq_Inr)
  have "pq_items (preemptors qs') = [21]"
    by (simp add: prs twoJobsPair_def)
  moreover have "pq_items (preemptees qs') = [21]"
    by (simp add: pes twoJobsPair_def Push_def)
  moreover have "map_option pq_items (preempteeTasks qs' ''j2'') = Some [12]"
    by (simp add: ets twoJobsPair_def Push_def etq')
  ultimately show ?thesis using twoJobs_selectPair no body w' by blast
qed

section \<open>Closing a session\<close>

lemma closeSession_fields:
  "ssn_taskOrderFns (closeSession ssn) = ssn_taskOrderFns ssn"
  "ssn_preemptableFns (closeSession ssn) = ssn_preemptableFns ssn"
  "ssn_jobReadyFns (closeSession ssn) = ssn_jobReadyFns ssn"
  "ssn_cache (closeSession ssn) = ssn_cache ssn"
  by (simp_all add: closeSession_def)

text \<open>
  C9 (the code falls short of it). After \<open>closeSession\<close> every reference of the
  session is dropped, the four lists of policy functions among them. On a session with
  one function in every policy list, \<open>closeSession\<close> empties the job-order list and
  leaves the task-order, preemptable and job-ready lists as they were.
\<close>

theorem closeSession_keeps_policies:
  "ssn_jobOrderFns (closeSession policySession) = []
   \<and> ssn_taskOrderFns (closeSession policySession) \<noteq> []
   \<and> ssn_preemptableFns (closeSession policySession) \<noteq> []
   \<and> ssn_jobReadyFns (closeSession policySession) \<noteq> []"
  by (simp add: closeSession_def policySession_def AddJobReadyFn_def AddPreemptableFn_def
        AddTaskOrderFn_def AddJobOrderFn_def)

section \<open>Allocate when the job index misses\<close>

lemma Allocate_job_miss:
  assumes "w_tasks w t = Some task" "ssn_JobIndex ssn (ti_Job task) = None"
    "ssn_jobReadyFns ssn = []"
  shows "\<exists>p. Allocate ssn w t hostname = Inl p"
  using assms
  by (cases "recordAllocation ssn w t hostname None")
     (simp_all add: Allocate_def JobReady_def)

text \<open>
  C2 (the code falls short of it). When the job of the task is not in the job index,
  \<open>Allocate\<close> skips the job-side update and returns normally. On a session without
  readiness predicates whose index misses the job, \<open>Allocate\<close> does not return: the
  readiness test holds of the nil job and the bucket is read through the nil pointer.
\<close>

theorem Allocate_job_miss_panics:
  "Allocate missSession missWorld 11 ''n1'' = Inl NilPointerDereference"
  by (simp add: Allocate_def missSession_def missWorld_def sampleWorld_def sampleSession_def
        JobReady_def recordAllocation_def setNodeName_def AddTask_def sampleTask_def
        NewNodeInfo_def sampleNode_def NewResource_def PodKey_def Sub_def LessEqual_def)

section \<open>Allocate when Bind fails\<close>

lemma Allocate_error_nil:
  assumes "Allocate ssn w t hostname = Inr (e, w')"
  shows "e = None"
  using assms
  by (auto simp: Allocate_def Let_def andThen_eq_Inr split: if_splits option.splits)

text \<open>
  C3 (the code falls short of it). An error of \<open>Bind\<close> in a dispatch that \<open>Allocate\<close>
  triggers is the return value of \<open>Allocate\<close>. On a session whose cache refuses every
  \<open>Bind\<close>, \<open>Allocate\<close> of the only task of a ready job calls \<open>Bind\<close> once, gets the
  error, and returns nil.
\<close>

theorem Allocate_drops_Bind_error:
  "\<exists>w'. Allocate refusingSession oneTaskWorld 11 ''n1'' = Inr (None, w')
        \<and> w_binds w' = [(11, ''n1'')]
        \<and> cache_Bind (ssn_cache refusingSession) (w_binds oneTaskWorld)
              ((sampleTask ''new'' Allocated 4)\<lparr>ti_NodeName := ''n1''\<rparr>) ''n1''
            = Some ''bind failed''"
  by (simp add: Allocate_def refusingSession_def oneTaskWorld_def sampleWorld_def
        sampleSession_def sampleJob_def
        JobReady_def recordAllocation_def setNodeName_def AddTask_def sampleTask_def
        UpdateTaskStatus_def moveTask_def dispatch_def Let_def
        NewNodeInfo_def sampleNode_def NewResource_def PodKey_def Sub_def LessEqual_def)

section \<open>Allocate followed by RemoveTask\<close>

lemma fireAllocate_frame [simp]:
  "w_tasks (fireAllocate ehs t w) = w_tasks w"
  "w_jobs (fireAllocate ehs t w) = w_jobs w"
  "w_nodes (fireAllocate ehs t w) = w_nodes w"
  "w_binds (fireAllocate ehs t w) = w_binds w"
  "w_evicts (fireAllocate ehs t w) = w_evicts w"
  by (induction ehs arbitrary: w; simp split: option.splits)+

lemma UpdateTaskStatus_unknown:
  "w_jobs w jr = Some job \<Longrightarrow> w_tasks w t = Some task
   \<Longrightarrow> map_of (ji_Tasks job) (PodKey (ti_Pod task)) = None
   \<Longrightarrow> UpdateTaskStatus w jr t st = Inr w"
  by (simp add: UpdateTaskStatus_def)

lemma UpdateTaskStatus_member:
  "w_jobs w jr = Some job \<Longrightarrow> w_tasks w t = Some task
   \<Longrightarrow> map_of (ji_Tasks job) (PodKey (ti_Pod task)) = Some r
   \<Longrightarrow> UpdateTaskStatus w jr t st =
         Inr (w\<lparr>w_tasks := (w_tasks w)(t \<mapsto> task\<lparr>ti_Status := st\<rparr>),
                 w_jobs := (w_jobs w)(jr \<mapsto> job\<lparr>ji_TaskStatusIndex :=
                   moveTask (ji_TaskStatusIndex job) (PodKey (ti_Pod task)) t
                     (ti_Status task) st\<rparr>)\<rparr>)"
  by (simp add: UpdateTaskStatus_def)

lemma UpdateTaskStatus_Inr:
  assumes "UpdateTaskStatus w jr t st = Inr w'"
  shows "\<exists>job task. w_jobs w jr = Some job \<and> w_tasks w t = Some task"
  using assms by (auto simp: UpdateTaskStatus_def andThen_eq_Inr)

lemma UpdateTaskStatus_frame:
  assumes "UpdateTaskStatus w jr t st = Inr w'"
  shows "w_nodes w' = w_nodes w" "w_binds w' = w_binds w" "w_evicts w' = w_evicts w"
    "w_events w' = w_events w"
proof -
  from UpdateTaskStatus_Inr [OF assms] obtain job task
    where j: "w_jobs w jr = Some job" and t: "w_tasks w t = Some task" by blast
  have "w_nodes w' = w_nodes w \<and> w_binds w' = w_binds w \<and> w_evicts w' = w_evicts w
        \<and> w_events w' = w_events w"
  proof (cases "map_of (ji_Tasks job) (PodKey (ti_Pod task))")
    case None
    with assms j t show ?thesis by (simp add: UpdateTaskStatus_unknown)
  next
    case (Some r)
    with assms j t show ?thesis by (auto simp: UpdateTaskStatus_member)
  qed
  then show "w_nodes w' = w_nodes w" "w_binds w' = w_binds w" "w_evicts w' = w_evicts w"
    "w_events w' = w_events w" by simp_all
qed

lemma UpdateTaskStatus_keeps:
  assumes upd: "UpdateTaskStatus w jr t' st = Inr w'"
    and st: "st \<noteq> Releasing"
    and jr: "\<exists>task'. w_tasks w t' = Some task' \<and> ssn_JobIndex ssn (ti_Job task') = Some jr"
    and held: "heldAs ssn t added (w_tasks w) (w_jobs w)"
  shows "heldAs ssn t added (w_tasks w') (w_jobs w')"
proof -
  from UpdateTaskStatus_Inr [OF upd] jr obtain job task'
    where j: "w_jobs w jr = Some job" and t': "w_tasks w t' = Some task'"
      and idx: "ssn_JobIndex ssn (ti_Job task') = Some jr" by auto
  show ?thesis
  proof (cases "map_of (ji_Tasks job) (PodKey (ti_Pod task'))")
    case None
    with upd j t' held show ?thesis by (simp add: UpdateTaskStatus_unknown)
  next
    case (Some r)
    from upd j t' Some have w': "w_tasks w' = (w_tasks w)(t' \<mapsto> task'\<lparr>ti_Status := st\<rparr>)"
      and jobs': "\<exists>idx. w_jobs w' = (w_jobs w)(jr \<mapsto> job\<lparr>ji_TaskStatusIndex := idx\<rparr>)"
      by (auto simp: UpdateTaskStatus_member)
    from jobs' obtain idx' where jobs: "w_jobs w' = (w_jobs w)(jr \<mapsto> job\<lparr>ji_TaskStatusIndex := idx'\<rparr>)"
      by blast
    from held obtain task where t: "w_tasks w t = Some task"
      by (auto simp: heldAs_def split: option.splits)
    show ?thesis
    proof (cases "t' = t")
      case True
      with t t' have same: "task' = task" by simp
      with held t idx j Some have "ti_Status added \<noteq> Releasing"
        by (auto simp: heldAs_def)
      with held t st True same show ?thesis
        by (simp add: heldAs_def w')
    next
      case False
      with held t j show ?thesis
        by (auto simp: heldAs_def w' jobs split: option.splits)
    qed
  qed
qed

lemma dispatch_keeps:
  assumes d: "dispatch ssn w t' = Inr r"
    and held: "heldAs ssn t added (w_tasks w) (w_jobs w)"
  shows "heldAs ssn t added (w_tasks (snd r)) (w_jobs (snd r)) \<and> w_nodes (snd r) = w_nodes w"
proof -
  from d obtain task' where t': "w_tasks w t' = Some task'"
    by (auto simp: dispatch_def andThen_eq_Inr)
  let ?w1 = "w\<lparr>w_binds := w_binds w @ [(t', ti_NodeName task')]\<rparr>"
  have held1: "heldAs ssn t added (w_tasks ?w1) (w_jobs ?w1)"
    using held by simp
  show ?thesis
  proof (cases "cache_Bind (ssn_cache ssn) (w_binds w) task' (ti_NodeName task')")
    case (Some err)
    with d t' have "snd r = ?w1" by (auto simp: dispatch_def Let_def)
    with held1 show ?thesis by simp
  next
    case None
    note bound = this
    show ?thesis
    proof (cases "ssn_JobIndex ssn (ti_Job task')")
      case None
      with d t' bound have "snd r = ?w1" by (auto simp: dispatch_def Let_def)
      with held1 show ?thesis by simp
    next
      case (Some jr)
      with d t' bound have upd: "UpdateTaskStatus ?w1 jr t' Binding = Inr (snd r)"
        by (auto simp: dispatch_def Let_def andThen_eq_Inr)
      have "\<exists>task'. w_tasks ?w1 t' = Some task' \<and> ssn_JobIndex ssn (ti_Job task') = Some jr"
        using t' Some by simp
      from UpdateTaskStatus_keeps [OF upd _ this held1] UpdateTaskStatus_frame(1) [OF upd]
      show ?thesis by simp
    qed
  qed
qed

lemma dispatchAllocated_keeps:
  "dispatchAllocated ssn w jr ks = Inr w' \<Longrightarrow> heldAs ssn t added (w_tasks w) (w_jobs w)
   \<Longrightarrow> heldAs ssn t added (w_tasks w') (w_jobs w') \<and> w_nodes w' = w_nodes w"
proof (induction ks arbitrary: w)
  case Nil
  then show ?case by simp
next
  case (Cons k ks)
  from Cons.prems(1) obtain job where job: "w_jobs w jr = Some job"
    by (auto simp: andThen_eq_Inr)
  show ?case
  proof (cases "map_of (ji_TaskStatusIndex job Allocated) k")
    case None
    with Cons job show ?thesis by simp
  next
    case (Some t')
    with Cons.prems(1) job obtain r where d: "dispatch ssn w t' = Inr r"
      and rest: "dispatchAllocated ssn (snd r) jr ks = Inr w'"
      by (auto simp: andThen_eq_Inr)
    from dispatch_keeps [OF d Cons.prems(2)] Cons.IH [OF rest] show ?thesis by simp
  qed
qed

lemma heldAs_NodeName:
  "heldAs ssn t (added\<lparr>ti_NodeName := h\<rparr>) th jh = heldAs ssn t added th jh"
  by (simp add: heldAs_def cong: option.case_cong)

lemma heldAs_set_NodeName:
  "th t = Some task \<Longrightarrow>
     heldAs ssn t added (th(t \<mapsto> task\<lparr>ti_NodeName := h\<rparr>)) jh = heldAs ssn t added th jh"
  by (simp add: heldAs_def)

lemma setNodeName_Some:
  "w_tasks w t = Some task \<Longrightarrow>
     setNodeName w t h = Inr (w\<lparr>w_tasks := (w_tasks w)(t \<mapsto> task\<lparr>ti_NodeName := h\<rparr>)\<rparr>)"
  by (simp add: setNodeName_def)

lemma Sub_Add:
  "LessEqual EmptyResource a \<Longrightarrow> Sub (Add a r) r = Inr a"
  by (simp add: Sub_def LessEqual_def Add_def)

lemma Sub_then_Add: "Sub a r = Inr d \<Longrightarrow> Add d r = a"
  by (simp add: Sub_eq_Inr)

lemma AddTask_then_RemoveTask:
  assumes add: "AddTask th n t = Inr n1"
    and task: "th t = Some task"
    and absent: "map_of (ni_Tasks n) (PodKey (ti_Pod task)) = None"
    and real: "ni_Node n = Some nd"
    and task': "th' t = Some task'"
    and same: "ti_Pod task' = ti_Pod task" "ti_Resreq task' = ti_Resreq task"
      "(ti_Status task' = Releasing) = (ti_Status task = Releasing)"
    and used: "LessEqual EmptyResource (ni_Used n)"
    and rel: "LessEqual EmptyResource (ni_Releasing n)"
  shows "\<exists>n2. RemoveTask th' n1 t = Inr n2 \<and> ni_Idle n2 = ni_Idle n
           \<and> ni_Used n2 = ni_Used n \<and> ni_Releasing n2 = ni_Releasing n
           \<and> ni_Used n1 = Add (ni_Used n) (ti_Resreq task)
           \<and> map_of (ni_Tasks n1) (PodKey (ti_Pod task)) = Some t"
proof -
  from add task absent real obtain idle
    where idle: "Sub (ni_Idle n) (ti_Resreq task) = Inr idle"
      and n1: "n1 = n\<lparr>ni_Releasing :=
                        (if ti_Status task = Releasing
                         then Add (ni_Releasing n) (ti_Resreq task) else ni_Releasing n),
                      ni_Idle := idle,
                      ni_Used := Add (ni_Used n) (ti_Resreq task),
                      ni_Tasks := AList.update (PodKey (ti_Pod task)) t (ni_Tasks n)\<rparr>"
    by (auto simp: AddTask_real andThen_eq_Inr)
  have stored: "map_of (ni_Tasks n1) (PodKey (ti_Pod task')) = Some t"
    by (simp add: n1 same update_conv')
  have node: "ni_Node n1 = Some nd"
    by (simp add: n1 real)
  have restored: "Add idle (ti_Resreq task) = ni_Idle n"
    using idle by (rule Sub_then_Add)
  show ?thesis
  proof (cases "ti_Status task = Releasing")
    case True
    with same have "ti_Status task' = Releasing" by simp
    then show ?thesis
      using True restored
      by (simp add: RemoveTask_real [where th = th' and ni = n1 and tref = t and task = task', OF task' stored node task'] same)
         (simp add: n1 Sub_Add [OF used] Sub_Add [OF rel] update_conv')
  next
    case False
    with same have "ti_Status task' \<noteq> Releasing" by simp
    then show ?thesis
      using False restored
      by (simp add: RemoveTask_real [where th = th' and ni = n1 and tref = t and task = task', OF task' stored node task'] same)
         (simp add: n1 Sub_Add [OF used] update_conv')
  qed
qed

lemma recordAllocation_held:
  assumes rec: "recordAllocation ssn w t hostname (ssn_JobIndex ssn (ti_Job task)) = Inr w4"
    and task: "w_tasks w t = Some task"
    and node: "ssn_NodeIndex ssn hostname = Some nr"
    and n: "w_nodes w nr = Some n"
  shows "\<exists>added n1. w_tasks w4 t = Some added \<and> ti_Pod added = ti_Pod task
           \<and> ti_Resreq added = ti_Resreq task
           \<and> AddTask (w_tasks w4) n t = Inr n1 \<and> w_nodes w4 nr = Some n1
           \<and> heldAs ssn t added (w_tasks w4) (w_jobs w4)"
proof -
  from rec obtain w1 where
    w1: "(case ssn_JobIndex ssn (ti_Job task) of
            Some jref \<Rightarrow> UpdateTaskStatus w jref t Allocated | None \<Rightarrow> Inr w) = Inr w1"
    by (auto simp: recordAllocation_def andThen_eq_Inr)
  have "\<exists>task1. w_tasks w1 t = Some task1 \<and> ti_Pod task1 = ti_Pod task
          \<and> ti_Resreq task1 = ti_Resreq task \<and> ti_Job task1 = ti_Job task
          \<and> w_nodes w1 = w_nodes w
          \<and> heldAs ssn t task1 (w_tasks w1) (w_jobs w1)"
  proof (cases "ssn_JobIndex ssn (ti_Job task)")
    case None
    with w1 task show ?thesis by (auto simp: heldAs_def)
  next
    case (Some jr)
    with w1 have upd: "UpdateTaskStatus w jr t Allocated = Inr w1" by simp
    from UpdateTaskStatus_Inr [OF upd] obtain job where job: "w_jobs w jr = Some job"
      by blast
    show ?thesis
    proof (cases "map_of (ji_Tasks job) (PodKey (ti_Pod task))")
      case None
      with upd job task have "w1 = w" by (simp add: UpdateTaskStatus_unknown)
      with task job None Some show ?thesis by (simp add: heldAs_def)
    next
      case (Some r)
      with upd job task show ?thesis
        by (auto simp: UpdateTaskStatus_member heldAs_def)
    qed
  qed
  then obtain task1 where t1: "w_tasks w1 t = Some task1"
    and same1: "ti_Pod task1 = ti_Pod task" "ti_Resreq task1 = ti_Resreq task"
      "ti_Job task1 = ti_Job task"
    and nodes1: "w_nodes w1 = w_nodes w"
    and held1: "heldAs ssn t task1 (w_tasks w1) (w_jobs w1)"
    by blast
  let ?added = "task1\<lparr>ti_NodeName := hostname\<rparr>"
  let ?w2 = "w1\<lparr>w_tasks := (w_tasks w1)(t \<mapsto> ?added)\<rparr>"
  from rec w1 t1 node obtain w3 where
    w3: "andThen (deref (w_nodes ?w2) nr) (\<lambda>ni.
           andThen (AddTask (w_tasks ?w2) ni t) (\<lambda>ni'.
             Inr (?w2\<lparr>w_nodes := (w_nodes ?w2)(nr \<mapsto> ni')\<rparr>))) = Inr w3"
    and w4: "w4 = fireAllocate (ssn_eventHandlers ssn) t w3"
    by (auto simp: recordAllocation_def andThen_eq_Inr setNodeName_Some)
  from w3 n nodes1 obtain n1 where add: "AddTask (w_tasks ?w2) n t = Inr n1"
    and w3': "w3 = ?w2\<lparr>w_nodes := (w_nodes ?w2)(nr \<mapsto> n1)\<rparr>"
    by (auto simp: andThen_eq_Inr)
  have held: "heldAs ssn t ?added (w_tasks w4) (w_jobs w4)"
    using held1 t1 by (simp add: w4 w3' heldAs_NodeName heldAs_set_NodeName)
  have "w_tasks w4 t = Some ?added" by (simp add: w4 w3')
  moreover have "AddTask (w_tasks w4) n t = Inr n1" using add by (simp add: w4 w3')
  moreover have "w_nodes w4 nr = Some n1" by (simp add: w4 w3')
  ultimately show ?thesis using held same1 by auto
qed

lemma oneTask_Allocate:
  "\<exists>w'. Allocate sampleSession oneTaskWorld 11 ''n1'' = Inr (None, w')"
  by (simp add: Allocate_def oneTaskWorld_def sampleWorld_def
        sampleSession_def sampleJob_def sampleCache_def
        JobReady_def recordAllocation_def setNodeName_def AddTask_def sampleTask_def
        UpdateTaskStatus_def moveTask_def dispatch_def Let_def
        NewNodeInfo_def sampleNode_def NewResource_def PodKey_def Sub_def LessEqual_def)

text \<open>
  C7. Let \<open>Allocate\<close> return for a task \<open>t\<close> and a host whose node has a backing
  object and does not hold the task yet (Used and Releasing of the node are not
  negative). Then the task is on the node with its request added to Used, and
  \<open>RemoveTask\<close> of the task on that node, in the store that \<open>Allocate\<close> leaves, returns
  a node whose Idle, Used and Releasing are those before \<open>Allocate\<close>.
\<close>

theorem Allocate_then_RemoveTask:
  assumes alloc: "Allocate ssn w t hostname = Inr (e, w')"
    and task: "w_tasks w t = Some task"
    and node: "ssn_NodeIndex ssn hostname = Some nr"
    and n: "w_nodes w nr = Some n"
    and real: "ni_Node n \<noteq> None"
    and absent: "map_of (ni_Tasks n) (PodKey (ti_Pod task)) = None"
    and used: "LessEqual EmptyResource (ni_Used n)"
    and rel: "LessEqual EmptyResource (ni_Releasing n)"
  shows "\<exists>n1 n2. w_nodes w' nr = Some n1
           \<and> map_of (ni_Tasks n1) (PodKey (ti_Pod task)) = Some t
           \<and> ni_Used n1 = Add (ni_Used n) (ti_Resreq task)
           \<and> RemoveTask (w_tasks w') n1 t = Inr n2
           \<and> ni_Idle n2 = ni_Idle n \<and> ni_Used n2 = ni_Used n
           \<and> ni_Releasing n2 = ni_Releasing n"
proof -
  from alloc task obtain w4 where
    rec: "recordAllocation ssn w t hostname (ssn_JobIndex ssn (ti_Job task)) = Inr w4"
    by (auto simp: Allocate_def Let_def andThen_eq_Inr)
  from recordAllocation_held [OF rec task node n] obtain added n1
    where added: "w_tasks w4 t = Some added" "ti_Pod added = ti_Pod task"
      "ti_Resreq added = ti_Resreq task"
      and add: "AddTask (w_tasks w4) n t = Inr n1"
      and n1: "w_nodes w4 nr = Some n1"
      and held: "heldAs ssn t added (w_tasks w4) (w_jobs w4)"
    by blast
  have after: "heldAs ssn t added (w_tasks w') (w_jobs w') \<and> w_nodes w' = w_nodes w4"
  proof (cases "JobReady ssn (case ssn_JobIndex ssn (ti_Job task) of
                                None \<Rightarrow> None | Some jref \<Rightarrow> w_jobs w4 jref)")
    case False
    with alloc task rec have "w' = w4" by (simp add: Allocate_def Let_def)
    with held show ?thesis by simp
  next
    case True
    note ready = this
    show ?thesis
    proof (cases "ssn_JobIndex ssn (ti_Job task)")
      case None
      with alloc task rec ready show ?thesis by (simp add: Allocate_def Let_def)
    next
      case (Some jr)
      note jr = this
      show ?thesis
      proof (cases "w_jobs w4 jr")
        case None
        with alloc task rec ready jr show ?thesis by (simp add: Allocate_def Let_def)
      next
        case (Some j)
        with alloc task rec ready jr have
          "dispatchAllocated ssn w4 jr (map fst (ji_TaskStatusIndex j Allocated)) = Inr w'"
          by (auto simp: Allocate_def Let_def andThen_eq_Inr)
        from dispatchAllocated_keeps [OF this held] show ?thesis .
      qed
    qed
  qed
  then obtain task' where task': "w_tasks w' t = Some task'"
    and same: "ti_Pod task' = ti_Pod added" "ti_Resreq task' = ti_Resreq added"
      "(ti_Status task' = Releasing) = (ti_Status added = Releasing)"
    by (auto simp: heldAs_def split: option.splits)
  from real obtain nd where nd: "ni_Node n = Some nd" by auto
  from absent added have absent': "map_of (ni_Tasks n) (PodKey (ti_Pod added)) = None"
    by simp
  from AddTask_then_RemoveTask [where th = "w_tasks w4" and th' = "w_tasks w'" and t = t,
      OF add added(1) absent' nd task' same used rel]
    after n1 added
  show ?thesis by auto
qed

theorem Allocate_then_RemoveTask_witness:
  "\<exists>w' n1 n2. Allocate sampleSession oneTaskWorld 11 ''n1'' = Inr (None, w')
     \<and> ni_Node (NewNodeInfo (Some sampleNode)) \<noteq> None
     \<and> w_nodes w' 30 = Some n1
     \<and> RemoveTask (w_tasks w') n1 11 = Inr n2
     \<and> ni_Idle n2 = ni_Idle (NewNodeInfo (Some sampleNode))
     \<and> ni_Used n2 = ni_Used (NewNodeInfo (Some sampleNode))
     \<and> ni_Releasing n2 = ni_Releasing (NewNodeInfo (Some sampleNode))"
proof -
  let ?n = "NewNodeInfo (Some sampleNode)"
  let ?task = "sampleTask ''new'' Pending 4"
  from oneTask_Allocate obtain w'
    where alloc: "Allocate sampleSession oneTaskWorld 11 ''n1'' = Inr (None, w')" by blast
  have task: "w_tasks oneTaskWorld 11 = Some ?task"
    by (simp add: oneTaskWorld_def sampleWorld_def)
  have node: "ssn_NodeIndex sampleSession ''n1'' = Some 30"
    by (simp add: sampleSession_def)
  have n: "w_nodes oneTaskWorld 30 = Some ?n"
    by (simp add: oneTaskWorld_def sampleWorld_def)
  have real: "ni_Node ?n \<noteq> None"
    by (simp add: NewNodeInfo_def)
  have absent: "map_of (ni_Tasks ?n) (PodKey (ti_Pod ?task)) = None"
    by (simp add: NewNodeInfo_def)
  have used: "LessEqual EmptyResource (ni_Used ?n)"
    by (simp add: NewNodeInfo_def LessEqual_def)
  have rel: "LessEqual EmptyResource (ni_Releasing ?n)"
    by (simp add: NewNodeInfo_def LessEqual_def)
  from Allocate_then_RemoveTask [OF alloc task node n real absent used rel] alloc real
  show ?thesis by blast
qed

section \<open>Gang dispatch\<close>




















end
